theory Spec2Isabelle
  imports Main "HOL-Library.Sublist"
begin

section \<open>The pipeline interpreter of cmd/uv3dp/main.go\<close>

text \<open>
  The source file is \<^verbatim>\<open>cmd/uv3dp/main.go\<close>. Its function \<^verbatim>\<open>evaluate\<close> walks the
  command-line tokens, and calls into the package \<^verbatim>\<open>uv3dp\<close> (formats, the cached
  printable) and into the three commands of \<^verbatim>\<open>commandMap\<close>. None of these callees is
  part of the file, so they are parameters of the model: a record of functions, one
  field per callee, over type variables for the Go types
  \<^item> \<open>'f\<close>: \<^verbatim>\<open>*uv3dp.Format\<close>,
  \<^item> \<open>'c\<close>: a \<^verbatim>\<open>Commander\<close>,
  \<^item> \<open>'p\<close>: a non-nil \<^verbatim>\<open>uv3dp.Printable\<close> (the interface value \<^verbatim>\<open>nil\<close> is \<open>None\<close>),
  \<^item> \<open>'e\<close>: a non-nil \<^verbatim>\<open>error\<close> (\<^verbatim>\<open>nil\<close> is \<open>None\<close>),
  \<^item> \<open>'w\<close>: everything outside the interpreter that a decode, an encode or a filter
    reads or writes (the files, the standard output).

  A Go function returning \<^verbatim>\<open>(value, err)\<close> is a function into \<open>'e + value\<close>: wherever
  \<^verbatim>\<open>evaluate\<close> receives such a pair it returns at once when \<^verbatim>\<open>err != nil\<close>, and never
  looks at the value. \<^verbatim>\<open>Parse\<close> changes the object it is called on; the model returns
  the changed object. A decode, an encode and a filter take the world and return the
  world they leave. The calls of \<^verbatim>\<open>TraceVerbosef\<close> only print and are left out.
\<close>

subsection \<open>Constants and the callees\<close>

definition defaultCachedLayers :: int where
  "defaultCachedLayers = 64"

text \<open>
  The callees, by their Go names: \<^verbatim>\<open>uv3dp.NewFormat(args[0], args[1:])\<close>; the methods
  \<^verbatim>\<open>Parse\<close>, \<^verbatim>\<open>Args\<close>, \<^verbatim>\<open>Printable\<close> and \<^verbatim>\<open>SetPrintable\<close> of a \<^verbatim>\<open>*uv3dp.Format\<close> (the first
  two are \<open>FormatParse\<close> and \<open>FormatArgs\<close> here, apart from those of a command);
  \<^verbatim>\<open>uv3dp.NewCachedPrintable\<close>, which returns the new decorator, so its result is not
  \<^verbatim>\<open>nil\<close>, while its argument, the result of a decode without error, may be; the three
  constructors that \<^verbatim>\<open>commandMap\<close> names; and the methods \<^verbatim>\<open>Parse\<close>, \<^verbatim>\<open>Args\<close> and \<^verbatim>\<open>Filter\<close>
  of a \<^verbatim>\<open>Commander\<close>. The result of \<^verbatim>\<open>Filter\<close> is \<^verbatim>\<open>(output uv3dp.Printable, err error)\<close>:
  without an error the output may still be \<^verbatim>\<open>nil\<close>.
\<close>

record ('f, 'c, 'p, 'e, 'w) uv3dp =
  NewFormat :: "string \<Rightarrow> string list \<Rightarrow> 'e + 'f"
  FormatParse :: "'f \<Rightarrow> string list \<Rightarrow> 'e + 'f"
  FormatArgs :: "'f \<Rightarrow> string list"
  Printable :: "'f \<Rightarrow> 'w \<Rightarrow> ('e + 'p option) \<times> 'w"
  SetPrintable :: "'f \<Rightarrow> 'p \<Rightarrow> 'w \<Rightarrow> 'e option \<times> 'w"
  NewCachedPrintable :: "'p option \<Rightarrow> int \<Rightarrow> 'p"
  NewInfoCommand :: "'c"
  NewDecimateCommand :: "'c"
  NewExposureCommand :: "'c"
  Parse :: "'c \<Rightarrow> string list \<Rightarrow> 'e + 'c"
  Args :: "'c \<Rightarrow> string list"
  Filter :: "'c \<Rightarrow> 'p option \<Rightarrow> 'w \<Rightarrow> ('e + 'p option) \<times> 'w"

text \<open>An entry of \<^verbatim>\<open>commandMap\<close>, and the map itself with its three keys.\<close>

record 'c item =
  NewCommander :: "'c"
  Description :: string

definition commandMap :: "('f, 'c, 'p, 'e, 'w) uv3dp \<Rightarrow> (string \<rightharpoonup> 'c item)" where
  "commandMap U =
     [''info'' \<mapsto> \<lparr>NewCommander = NewInfoCommand U,
        Description = ''Dumps information about the printable''\<rparr>,
      ''decimate'' \<mapsto> \<lparr>NewCommander = NewDecimateCommand U,
        Description = ''Remove outmost pixels of all islands in each layer (reduces over-curing on edges)''\<rparr>,
      ''exposure'' \<mapsto> \<lparr>NewCommander = NewExposureCommand U,
        Description = ''Alters exposure times''\<rparr>]"

subsection \<open>The calls the interpreter makes\<close>

text \<open>
  The model keeps a log of every call \<^verbatim>\<open>evaluate\<close> makes to a callee, with the
  arguments of the call, in the order of the calls. The log is not in the source: it
  is what the claims about "how many decodes" and "in what order" speak of.
  \<^verbatim>\<open>Usage()\<close> (lines 67 to 92) only prints, and is one entry of the log.
\<close>

datatype ('f, 'c, 'p) call =
    CallUsage
  | CallNewFormat string "string list"
  | CallFormatParse 'f "string list"
  | CallPrintable 'f
  | CallNewCachedPrintable "'p option" int
  | CallSetPrintable 'f 'p
  | CallNewCommander string
  | CallParse 'c "string list"
  | CallFilter 'c "'p option"

subsection \<open>The state of the loop\<close>

text \<open>
  The variables of \<^verbatim>\<open>evaluate\<close>: \<^verbatim>\<open>input\<close>, the named result \<^verbatim>\<open>err\<close> and \<^verbatim>\<open>args\<close>;
  then the world outside and the log of calls. The variable \<^verbatim>\<open>format\<close> is assigned
  and used within one iteration only, so it is local to the iteration in the model.
\<close>

record ('f, 'c, 'p, 'e, 'w) state =
  input :: "'p option"
  err :: "'e option"
  args :: "string list"
  world :: "'w"
  trace :: "('f, 'c, 'p) call list"

text \<open>
  One iteration either returns from \<^verbatim>\<open>evaluate\<close> or reaches the loop head again. In
  the state of a \<open>Return\<close>, \<open>err\<close> is the value \<^verbatim>\<open>evaluate\<close> returns, and \<open>world\<close> and
  \<open>trace\<close> are what the run has done; \<open>input\<close> is the live value before the call that
  failed (the Go variable is dead at that point, whatever the failing call has put
  into it).
\<close>

datatype 's flow = Return 's | Next 's

text \<open>Lines 116 to 144: the head token \<open>a\<close> is not a key of \<^verbatim>\<open>commandMap\<close>.\<close>

definition format_token ::
  "('f, 'c, 'p, 'e, 'w) uv3dp \<Rightarrow> string \<Rightarrow> string list \<Rightarrow>
   ('f, 'c, 'p, 'e, 'w) state \<Rightarrow> ('f, 'c, 'p, 'e, 'w) state flow" where
  "format_token U a rest st =
     (case NewFormat U a rest of
        Inl e \<Rightarrow> Return (st\<lparr>err := Some e, trace := trace st @ [CallNewFormat a rest]\<rparr>)
      | Inr format0 \<Rightarrow>
         (case FormatParse U format0 rest of
            Inl e \<Rightarrow> Return (st\<lparr>err := Some e,
                       trace := trace st @ [CallNewFormat a rest, CallFormatParse format0 rest]\<rparr>)
          | Inr format \<Rightarrow>
             (let st1 = st\<lparr>err := None, args := FormatArgs U format,
                        trace := trace st @ [CallNewFormat a rest, CallFormatParse format0 rest]\<rparr>
              in case input st1 of
                   None \<Rightarrow>
                    (case Printable U format (world st1) of
                       (Inl e, w') \<Rightarrow>
                         Return (st1\<lparr>err := Some e, world := w',
                           trace := trace st1 @ [CallPrintable format]\<rparr>)
                     | (Inr p, w') \<Rightarrow>
                         Next (st1\<lparr>input := Some (NewCachedPrintable U p defaultCachedLayers),
                           err := None, world := w',
                           trace := trace st1 @
                             [CallPrintable format,
                              CallNewCachedPrintable p defaultCachedLayers]\<rparr>))
                 | Some i \<Rightarrow>
                    (case SetPrintable U format i (world st1) of
                       (Some e, w') \<Rightarrow>
                         Return (st1\<lparr>err := Some e, world := w',
                           trace := trace st1 @ [CallSetPrintable format i]\<rparr>)
                     | (None, w') \<Rightarrow>
                         Next (st1\<lparr>err := None, world := w',
                           trace := trace st1 @ [CallSetPrintable format i]\<rparr>)))))"

text \<open>Lines 146 to 157: the head token \<open>a\<close> is a key of \<^verbatim>\<open>commandMap\<close>, with entry \<open>it\<close>.\<close>

definition command_token ::
  "('f, 'c, 'p, 'e, 'w) uv3dp \<Rightarrow> string \<Rightarrow> 'c item \<Rightarrow> string list \<Rightarrow>
   ('f, 'c, 'p, 'e, 'w) state \<Rightarrow> ('f, 'c, 'p, 'e, 'w) state flow" where
  "command_token U a it rest st =
     (let cmd0 = NewCommander it in
      case Parse U cmd0 rest of
        Inl e \<Rightarrow> Return (st\<lparr>err := Some e,
                   trace := trace st @ [CallNewCommander a, CallParse cmd0 rest]\<rparr>)
      | Inr cmd \<Rightarrow>
         (let st1 = st\<lparr>err := None, args := Args U cmd,
                    trace := trace st @ [CallNewCommander a, CallParse cmd0 rest]\<rparr>
          in case Filter U cmd (input st1) (world st1) of
               (Inl e, w') \<Rightarrow>
                 Return (st1\<lparr>err := Some e, world := w',
                   trace := trace st1 @ [CallFilter cmd (input st1)]\<rparr>)
             | (Inr out, w') \<Rightarrow>
                 Next (st1\<lparr>input := out, err := None, world := w',
                   trace := trace st1 @ [CallFilter cmd (input st1)]\<rparr>)))"

text \<open>
  Lines 109 to 158, the body of the loop. The loop enters it with \<^verbatim>\<open>len(args) > 0\<close>.
  The bare \<^verbatim>\<open>return\<close> after \<^verbatim>\<open>Usage()\<close> returns the current value of \<^verbatim>\<open>err\<close>.
\<close>

definition body ::
  "('f, 'c, 'p, 'e, 'w) uv3dp \<Rightarrow> ('f, 'c, 'p, 'e, 'w) state \<Rightarrow>
   ('f, 'c, 'p, 'e, 'w) state flow" where
  "body U st =
     (case args st of
        [] \<Rightarrow> Return st
      | a # rest \<Rightarrow>
         if a = ''help'' then Return (st\<lparr>trace := trace st @ [CallUsage]\<rparr>)
         else (case commandMap U a of
                 None \<Rightarrow> format_token U a rest st
               | Some it \<Rightarrow> command_token U a it rest st))"

text \<open>
  Lines 108 to 161. Nothing in the source bounds the number of iterations (the next
  \<^verbatim>\<open>args\<close> is whatever \<^verbatim>\<open>Args()\<close> returns), so the loop is a partial function: \<open>None\<close>
  is a run that never returns.
\<close>

partial_function (option) loop ::
  "('f, 'c, 'p, 'e, 'w) uv3dp \<Rightarrow> ('f, 'c, 'p, 'e, 'w) state \<Rightarrow>
   ('f, 'c, 'p, 'e, 'w) state option" where
  "loop U st =
     (if args st = [] then Some st
      else case body U st of Return st' \<Rightarrow> Some st' | Next st' \<Rightarrow> loop U st')"

declare loop.simps [code]

text \<open>The state at the first loop head: \<^verbatim>\<open>input\<close> and \<^verbatim>\<open>err\<close> are \<^verbatim>\<open>nil\<close>.\<close>

definition init :: "'w \<Rightarrow> string list \<Rightarrow> ('f, 'c, 'p, 'e, 'w) state" where
  "init w as = \<lparr>input = None, err = None, args = as, world = w, trace = []\<rparr>"

text \<open>
  Lines 99 to 162. The result is the final state: its \<open>err\<close> is the value \<^verbatim>\<open>evaluate\<close>
  returns, its \<open>world\<close> and \<open>trace\<close> are what the run has done.
\<close>

definition evaluate ::
  "('f, 'c, 'p, 'e, 'w) uv3dp \<Rightarrow> 'w \<Rightarrow> string list \<Rightarrow> ('f, 'c, 'p, 'e, 'w) state option" where
  "evaluate U w as =
     (if as = [] then Some ((init w as)\<lparr>trace := [CallUsage]\<rparr>)
      else loop U (init w as))"

subsection \<open>Loop heads of a run\<close>

text \<open>
  \<open>reach U s0\<close> are the states in which a run that is at the loop head in state \<open>s0\<close>
  is at the loop head again: each is reached from the one before by an iteration that
  does not return. \<open>heads U w as\<close> are the loop heads of \<open>evaluate U w as\<close>.
\<close>

inductive_set reach ::
  "('f, 'c, 'p, 'e, 'w) uv3dp \<Rightarrow> ('f, 'c, 'p, 'e, 'w) state \<Rightarrow> ('f, 'c, 'p, 'e, 'w) state set"
  for U :: "('f, 'c, 'p, 'e, 'w) uv3dp" and s0 :: "('f, 'c, 'p, 'e, 'w) state" where
  start: "s0 \<in> reach U s0"
| iterate: "s \<in> reach U s0 \<Longrightarrow> args s \<noteq> [] \<Longrightarrow> body U s = Next s' \<Longrightarrow> s' \<in> reach U s0"

definition heads ::
  "('f, 'c, 'p, 'e, 'w) uv3dp \<Rightarrow> 'w \<Rightarrow> string list \<Rightarrow> ('f, 'c, 'p, 'e, 'w) state set" where
  "heads U w as = reach U (init w as)"

subsection \<open>Tokens and stages\<close>

text \<open>
  The argument list as the interpreter cuts it: a format token with the tokens its
  \<^verbatim>\<open>Parse\<close> consumes, or a command token with the tokens its \<^verbatim>\<open>Parse\<close> consumes, each
  followed by the cut of what \<^verbatim>\<open>Args()\<close> leaves. \<open>tokens U as segs\<close> holds when every
  token of \<open>as\<close> resolves and parses and none is \<^verbatim>\<open>help\<close>; each segment carries the
  parsed format or command.
\<close>

datatype ('f, 'c) segment = FormatSeg 'f | CommandSeg 'c

inductive tokens ::
  "('f, 'c, 'p, 'e, 'w) uv3dp \<Rightarrow> string list \<Rightarrow> ('f, 'c) segment list \<Rightarrow> bool"
  for U :: "('f, 'c, 'p, 'e, 'w) uv3dp" where
  tokens_Nil: "tokens U [] []"
| tokens_Format:
    "a \<noteq> ''help'' \<Longrightarrow> commandMap U a = None \<Longrightarrow> NewFormat U a rest = Inr f0 \<Longrightarrow>
     FormatParse U f0 rest = Inr f \<Longrightarrow> tokens U (FormatArgs U f) segs \<Longrightarrow>
     tokens U (a # rest) (FormatSeg f # segs)"
| tokens_Command:
    "commandMap U a = Some it \<Longrightarrow> Parse U (NewCommander it) rest = Inr c \<Longrightarrow>
     tokens U (Args U c) segs \<Longrightarrow>
     tokens U (a # rest) (CommandSeg c # segs)"

code_pred (modes: i \<Rightarrow> i \<Rightarrow> o \<Rightarrow> bool as tokenize) tokens .

text \<open>The decodes, encodes and filters of a log of calls, in the order of the log.\<close>

datatype ('f, 'c) stage = DecodeStage 'f | EncodeStage 'f | FilterStage 'c

fun stage_of :: "('f, 'c, 'p) call \<Rightarrow> ('f, 'c) stage option" where
  "stage_of (CallPrintable f) = Some (DecodeStage f)"
| "stage_of (CallSetPrintable f p) = Some (EncodeStage f)"
| "stage_of (CallFilter c i) = Some (FilterStage c)"
| "stage_of _ = None"

definition stages :: "('f, 'c, 'p) call list \<Rightarrow> ('f, 'c) stage list" where
  "stages tr = List.map_filter stage_of tr"

fun is_decode :: "('f, 'c) stage \<Rightarrow> bool" where
  "is_decode (DecodeStage f) = True"
| "is_decode _ = False"

fun is_encode :: "('f, 'c) stage \<Rightarrow> bool" where
  "is_encode (EncodeStage f) = True"
| "is_encode _ = False"

fun is_filter :: "('f, 'c) stage \<Rightarrow> bool" where
  "is_filter (FilterStage c) = True"
| "is_filter _ = False"

fun is_format :: "('f, 'c) segment \<Rightarrow> bool" where
  "is_format (FormatSeg f) = True"
| "is_format (CommandSeg c) = False"

fun is_cache :: "('f, 'c, 'p) call \<Rightarrow> bool" where
  "is_cache (CallNewCachedPrintable p n) = True"
| "is_cache _ = False"

text \<open>
  The spec's words for pipeline linearity (section 8): one decode at the first format
  token, an encode at every later format token, a filter at every command token, from
  left to right. \<open>loaded\<close> says whether a format token came before.
\<close>

fun spec_linear :: "bool \<Rightarrow> ('f, 'c) segment list \<Rightarrow> ('f, 'c) stage list" where
  "spec_linear loaded [] = []"
| "spec_linear loaded (FormatSeg f # segs) =
     (if loaded then EncodeStage f else DecodeStage f) # spec_linear True segs"
| "spec_linear loaded (CommandSeg c # segs) = FilterStage c # spec_linear loaded segs"

text \<open>
  The spec's words for the run of a pipeline (sections 4.6 and 7): the first format
  token decodes and wraps the result in the cache, every later format token encodes
  the live value, every command token filters it and binds the result; the stages run
  from left to right, and the first that fails ends the run with its error. The result
  is the stages that were run, the failing one last, the error (or none), and the world
  the run leaves. \<open>loaded\<close> says whether a format token came before; the spec says
  nothing about an encode without a live value, which is the result \<open>None\<close>.
\<close>

fun spec_pipeline ::
  "('f, 'c, 'p, 'e, 'w) uv3dp \<Rightarrow> bool \<Rightarrow> ('f, 'c) segment list \<Rightarrow> 'p option \<Rightarrow> 'w \<Rightarrow>
   (('f, 'c) stage list \<times> 'e option \<times> 'w) option" where
  "spec_pipeline U loaded [] live w = Some ([], None, w)"
| "spec_pipeline U loaded (FormatSeg f # segs) live w =
     (if loaded then
        (case live of
           None \<Rightarrow> None
         | Some v \<Rightarrow>
            (case SetPrintable U f v w of
               (Some e, w') \<Rightarrow> Some ([EncodeStage f], Some e, w')
             | (None, w') \<Rightarrow>
                 map_option (\<lambda>(ss, r, w''). (EncodeStage f # ss, r, w''))
                   (spec_pipeline U True segs live w')))
      else
        (case Printable U f w of
           (Inl e, w') \<Rightarrow> Some ([DecodeStage f], Some e, w')
         | (Inr p, w') \<Rightarrow>
             map_option (\<lambda>(ss, r, w''). (DecodeStage f # ss, r, w''))
               (spec_pipeline U True segs (Some (NewCachedPrintable U p defaultCachedLayers)) w')))"
| "spec_pipeline U loaded (CommandSeg c # segs) live w =
     (case Filter U c live w of
        (Inl e, w') \<Rightarrow> Some ([FilterStage c], Some e, w')
      | (Inr out, w') \<Rightarrow>
          map_option (\<lambda>(ss, r, w''). (FilterStage c # ss, r, w''))
            (spec_pipeline U loaded segs out w'))"

text \<open>
  What the interpreter relies on from a command: a \<^verbatim>\<open>Filter\<close> that returns no error
  returns a printable when it was given one (\<open>filter_keeps\<close>), and none when it was
  given none (\<open>filter_strict\<close>).
\<close>

definition filter_keeps :: "('f, 'c, 'p, 'e, 'w) uv3dp \<Rightarrow> bool" where
  "filter_keeps U = (\<forall>c p w out w'. Filter U c (Some p) w = (Inr out, w') \<longrightarrow> out \<noteq> None)"

definition filter_strict :: "('f, 'c, 'p, 'e, 'w) uv3dp \<Rightarrow> bool" where
  "filter_strict U = (\<forall>c w out w'. Filter U c None w = (Inr out, w') \<longrightarrow> out = None)"

subsection \<open>Notions for the claims about the cache decorator\<close>

text \<open>
  \<open>receives v c\<close>: the call \<open>c\<close> is no decode and no construction of a cache, and when
  it is an encode or a filter, the printable it is handed is \<open>v\<close>.
\<close>

fun receives :: "'p option \<Rightarrow> ('f, 'c, 'p) call \<Rightarrow> bool" where
  "receives v (CallSetPrintable f p) = (v = Some p)"
| "receives v (CallFilter c i) = (i = v)"
| "receives v (CallPrintable f) = False"
| "receives v (CallNewCachedPrintable p n) = False"
| "receives v _ = True"

text \<open>
  The numbers of cache constructions and of decodes in the log of a state, and the
  invariant of a run whose filters keep the live value: nothing is decoded or wrapped
  yet, or it happened once and there is a live value.
\<close>

definition caches :: "('f, 'c, 'p, 'e, 'w) state \<Rightarrow> nat" where
  "caches s = length (filter is_cache (trace s))"

definition decodes :: "('f, 'c, 'p, 'e, 'w) state \<Rightarrow> nat" where
  "decodes s = length (filter is_decode (stages (trace s)))"

definition once :: "('f, 'c, 'p, 'e, 'w) state \<Rightarrow> bool" where
  "once s = ((caches s = 0 \<and> decodes s = 0) \<or> (caches s \<le> 1 \<and> decodes s \<le> 1 \<and> input s \<noteq> None))"

section \<open>The layer cache\<close>

text \<open>
  \<^verbatim>\<open>uv3dp.NewCachedPrintable\<close> and the type it returns are not part of
  \<^verbatim>\<open>cmd/uv3dp/main.go\<close>. The definitions of this section follow sections 3 and 4.5 of
  the specification.
\<close>

datatype cache_error = InvalidCapacity

text \<open>
  Modelled from the spec: the Cached Printable, which is missing from the source. Its
  attributes are the wrapped Printable (here its layer lookup, from a layer index to
  the content of the layer), a fixed capacity, and an eviction-ordered mapping from
  layer index to decoded content (the most recently used entry first).
\<close>

record 'b cached_printable =
  wrapped :: "int \<Rightarrow> 'b"
  capacity :: int
  entries :: "(int \<times> 'b) list"

text \<open>
  Modelled from the spec: the constructor of the missing decorator. "Constructed with
  (wrapped Printable, capacity C > 0). Fails with InvalidCapacity if C \<le> 0."
\<close>

definition cache_new :: "(int \<Rightarrow> 'b) \<Rightarrow> int \<Rightarrow> cache_error + 'b cached_printable" where
  "cache_new P C =
     (if C \<le> 0 then Inl InvalidCapacity
      else Inr \<lparr>wrapped = P, capacity = C, entries = []\<rparr>)"

text \<open>
  Modelled from the spec: the layer read of the missing decorator. "On miss, delegates
  to the wrapped Printable, stores the result, evicts the least-recently-used entry if
  the cache now holds more than C distinct indices; on hit, returns the stored value
  without delegating." A hit makes its entry the most recently used one.
\<close>

definition cache_layer :: "'b cached_printable \<Rightarrow> int \<Rightarrow> 'b \<times> 'b cached_printable" where
  "cache_layer c i =
     (case map_of (entries c) i of
        Some v \<Rightarrow> (v, c\<lparr>entries := (i, v) # filter (\<lambda>kv. fst kv \<noteq> i) (entries c)\<rparr>)
      | None \<Rightarrow>
         (let v = wrapped c i; es = (i, v) # entries c
          in (v, c\<lparr>entries := (if capacity c < int (length es) then butlast es else es)\<rparr>)))"

text \<open>A sequence of layer reads, each on the cache the read before has left.\<close>

fun cache_reads :: "'b cached_printable \<Rightarrow> int list \<Rightarrow> 'b list \<times> 'b cached_printable" where
  "cache_reads c [] = ([], c)"
| "cache_reads c (i # is) =
     (let (v, c') = cache_layer c i; (vs, c'') = cache_reads c' is in (v # vs, c''))"

text \<open>Every stored entry holds what the wrapped Printable returns for its index.\<close>

definition cache_faithful :: "'b cached_printable \<Rightarrow> bool" where
  "cache_faithful c = list_all (\<lambda>kv. snd kv = wrapped c (fst kv)) (entries c)"

section \<open>A small instance of the callees\<close>

text \<open>
  Concrete callees, to run the interpreter on: formats recognised by the extensions
  \<^verbatim>\<open>.sl1\<close> and \<^verbatim>\<open>.ctb\<close>, files as an association list from name to content, the errors
  of section 7 of the specification, and commands that hand their input on and fail
  without one. No format and no command has an option: a \<^verbatim>\<open>Parse\<close> fails on a token
  \<^verbatim>\<open>--bad\<close> and consumes nothing otherwise. The file \<^verbatim>\<open>readonly.ctb\<close> cannot be written.
\<close>

datatype error = UnrecognizedFormat | BadOption | NoInputError | DecodeError | EncodeError

datatype job = Job string | CachedJob "job option" int

type_synonym files = "(string \<times> job) list"

type_synonym demo_uv3dp = "(string \<times> string list, string \<times> string list, job, error, files) uv3dp"

definition has_extension :: "string \<Rightarrow> string \<Rightarrow> bool" where
  "has_extension ext a = (take (length ext) (rev a) = rev ext)"

definition bad_option :: "string list \<Rightarrow> bool" where
  "bad_option rest = (case rest of [] \<Rightarrow> False | t # ts \<Rightarrow> t = ''--bad'')"

definition demo :: demo_uv3dp where
  "demo =
     \<lparr>NewFormat = (\<lambda>a rest. if has_extension ''.sl1'' a \<or> has_extension ''.ctb'' a
                             then Inr (a, []) else Inl UnrecognizedFormat),
      FormatParse = (\<lambda>f rest. if bad_option rest then Inl BadOption else Inr (fst f, rest)),
      FormatArgs = snd,
      Printable = (\<lambda>f w. case map_of w (fst f) of
                            None \<Rightarrow> (Inl DecodeError, w)
                          | Some j \<Rightarrow> (Inr (Some j), w)),
      SetPrintable = (\<lambda>f p w. if fst f = ''readonly.ctb'' then (Some EncodeError, w)
                               else (None, (fst f, p) # w)),
      NewCachedPrintable = CachedJob,
      NewInfoCommand = (''info'', []),
      NewDecimateCommand = (''decimate'', []),
      NewExposureCommand = (''exposure'', []),
      Parse = (\<lambda>c rest. if bad_option rest then Inl BadOption else Inr (fst c, rest)),
      Args = snd,
      Filter = (\<lambda>c i w. case i of
                           None \<Rightarrow> (Inl NoInputError, w)
                         | Some j \<Rightarrow> (Inr (Some j), w))\<rparr>"

text \<open>
  The same callees, but with a \<^verbatim>\<open>Filter\<close> that returns \<^verbatim>\<open>(nil, nil)\<close>: no error and no
  printable. The result type of \<^verbatim>\<open>Filter\<close> in the \<^verbatim>\<open>Commander\<close> interface allows it.
\<close>

definition demo_nil :: demo_uv3dp where
  "demo_nil = demo\<lparr>Filter := (\<lambda>c i w. (Inr None, w))\<rparr>"

text \<open>
  The loop head of the instance after it has decoded \<^verbatim>\<open>job.sl1\<close>, with \<open>as\<close> the
  tokens still to come.
\<close>

definition loaded_demo ::
  "string list \<Rightarrow> (string \<times> string list, string \<times> string list, job, error, files) state" where
  "loaded_demo as =
     \<lparr>input = Some (CachedJob (Some (Job ''x'')) 64), err = None, args = as,
      world = [(''job.sl1'', Job ''x'')],
      trace = [CallNewFormat ''job.sl1'' as, CallFormatParse (''job.sl1'', []) as,
               CallPrintable (''job.sl1'', as), CallNewCachedPrintable (Some (Job ''x'')) 64]\<rparr>"

text \<open>
  The loop head of the instance after the command \<open>a\<close> has run on \<open>loaded_demo (a # as)\<close>
  and its filter has returned \<open>out\<close>.
\<close>

definition filtered_demo ::
  "string \<Rightarrow> job option \<Rightarrow> string list \<Rightarrow>
   (string \<times> string list, string \<times> string list, job, error, files) state" where
  "filtered_demo a out as =
     (loaded_demo (a # as))\<lparr>input := out, args := as,
        trace := trace (loaded_demo (a # as)) @
          [CallNewCommander a, CallParse (a, []) as,
           CallFilter (a, as) (Some (CachedJob (Some (Job ''x'')) 64))]\<rparr>"

section \<open>Properties of the layer cache\<close>

lemma cache_layer_value: "cache_faithful c \<Longrightarrow> fst (cache_layer c i) = wrapped c i"
  by (auto simp: cache_layer_def cache_faithful_def list_all_iff Let_def
      split: option.splits dest!: map_of_SomeD)

lemma cache_layer_wrapped: "wrapped (snd (cache_layer c i)) = wrapped c"
  by (simp add: cache_layer_def Let_def split: option.splits)

lemma cache_layer_faithful: "cache_faithful c \<Longrightarrow> cache_faithful (snd (cache_layer c i))"
  by (auto simp: cache_layer_def cache_faithful_def list_all_iff Let_def
      split: option.splits dest!: map_of_SomeD in_set_butlastD)

lemma cache_reads_values:
  "cache_faithful c \<Longrightarrow> fst (cache_reads c js) = map (wrapped c) js"
proof (induction js arbitrary: c)
  case Nil
  then show ?case by simp
next
  case (Cons i js)
  obtain v c' where l: "cache_layer c i = (v, c')" by (cases "cache_layer c i")
  have v: "v = wrapped c i" using cache_layer_value[OF Cons.prems, of i] l by simp
  have f: "cache_faithful c'" using cache_layer_faithful[OF Cons.prems, of i] l by simp
  have w: "wrapped c' = wrapped c" using cache_layer_wrapped[of c i] l by simp
  show ?case using Cons.IH[OF f] l v w by (simp add: split_beta)
qed

lemma cache_reads_faithful:
  "cache_faithful c \<Longrightarrow>
   cache_faithful (snd (cache_reads c js)) \<and> wrapped (snd (cache_reads c js)) = wrapped c"
proof (induction js arbitrary: c)
  case Nil
  then show ?case by simp
next
  case (Cons i js)
  obtain v c' where l: "cache_layer c i = (v, c')" by (cases "cache_layer c i")
  have f: "cache_faithful c'" using cache_layer_faithful[OF Cons.prems, of i] l by simp
  have w: "wrapped c' = wrapped c" using cache_layer_wrapped[of c i] l by simp
  show ?case using Cons.IH[OF f] l w by (simp add: split_beta)
qed

text \<open>
  Claim C3, cache transparency. For a Printable with layer lookup \<open>P\<close> and a capacity
  \<open>C \<ge> 1\<close> the cache is constructed, every read of a sequence of layer reads \<open>js\<close>, in
  any order and with any repetition, returns what \<open>P\<close> returns for its index, and so
  does a read of any index \<open>i\<close> after the sequence.
\<close>

theorem cache_transparency:
  assumes "1 \<le> C"
  shows "\<exists>c. cache_new P C = Inr c \<and>
    fst (cache_reads c js) = map P js \<and>
    fst (cache_layer (snd (cache_reads c js)) i) = P i"
proof -
  let ?c = "\<lparr>wrapped = P, capacity = C, entries = []\<rparr>"
  have n: "cache_new P C = Inr ?c" using assms by (simp add: cache_new_def)
  have f: "cache_faithful ?c" by (simp add: cache_faithful_def)
  have r: "fst (cache_reads ?c js) = map P js" using cache_reads_values[OF f, of js] by simp
  have l: "fst (cache_layer (snd (cache_reads ?c js)) i) = P i"
    using cache_reads_faithful[OF f, of js] cache_layer_value by fastforce
  show ?thesis using n r l by blast
qed

text \<open>Capacity 2 and seven reads of three layers, with hits, misses and evictions.\<close>

theorem cache_transparency_witness:
  "\<exists>c. cache_new (\<lambda>i. 10 * i) 2 = Inr c \<and>
    fst (cache_reads c [0, 1, 2, 0, 2, 1, 1]) = [0, 10, 20, 0, 20, 10, 10] \<and>
    fst (cache_layer (snd (cache_reads c [0, 1, 2, 0, 2, 1, 1])) 0) = 0"
  using cache_transparency[of 2 "\<lambda>i. 10 * i" "[0, 1, 2, 0, 2, 1, 1]" 0] by simp

section \<open>Properties of the interpreter\<close>

subsection \<open>The loop and its heads\<close>

lemmas run_simps = evaluate_def init_def loop.simps body_def format_token_def command_token_def
  commandMap_def demo_def demo_nil_def has_extension_def bad_option_def defaultCachedLayers_def
  Let_def

lemma commandMap_help: "commandMap U ''help'' = None"
  by (simp add: commandMap_def)

lemma loop_Nil: "args st = [] \<Longrightarrow> loop U st = Some st"
  by (subst loop.simps) simp

lemma loop_Return: "args st \<noteq> [] \<Longrightarrow> body U st = Return st' \<Longrightarrow> loop U st = Some st'"
  by (subst loop.simps) simp

lemma loop_Next: "args st \<noteq> [] \<Longrightarrow> body U st = Next st' \<Longrightarrow> loop U st = loop U st'"
  by (subst loop.simps) simp

lemma reach_loop: "s \<in> reach U s0 \<Longrightarrow> loop U s0 = loop U s"
  by (induction rule: reach.induct) (simp_all add: loop_Next)

lemma reach_trans: "s' \<in> reach U s \<Longrightarrow> s \<in> reach U s0 \<Longrightarrow> s' \<in> reach U s0"
  by (induction rule: reach.induct) (auto intro: reach.iterate)

lemma reach_Nil: "s \<in> reach U s0 \<Longrightarrow> args s0 = [] \<Longrightarrow> s = s0"
  by (induction rule: reach.induct) auto

lemma heads_nonempty: "st \<in> heads U w as \<Longrightarrow> args st \<noteq> [] \<Longrightarrow> as \<noteq> []"
  using reach_Nil[of st U "init w as"] by (auto simp: heads_def init_def)

lemma heads_evaluate: "st \<in> heads U w as \<Longrightarrow> args st \<noteq> [] \<Longrightarrow> evaluate U w as = loop U st"
  using heads_nonempty[of st U w as] reach_loop[of st U "init w as"]
  by (simp add: evaluate_def heads_def)

lemma format_token_Next_err: "format_token U a rest st = Next st' \<Longrightarrow> err st' = None"
  by (auto simp: format_token_def Let_def split: sum.splits option.splits prod.splits)

lemma command_token_Next_err: "command_token U a it rest st = Next st' \<Longrightarrow> err st' = None"
  by (auto simp: command_token_def Let_def split: sum.splits option.splits prod.splits)

lemma body_Next_err: "args st \<noteq> [] \<Longrightarrow> body U st = Next st' \<Longrightarrow> err st' = None"
  by (auto simp: body_def format_token_Next_err command_token_Next_err
      split: list.splits if_splits option.splits)

lemma reach_err: "s \<in> reach U s0 \<Longrightarrow> err s0 = None \<Longrightarrow> err s = None"
  by (induction rule: reach.induct) (auto simp: body_Next_err)

lemma heads_err: "st \<in> heads U w as \<Longrightarrow> err st = None"
  using reach_err[of st U "init w as"] by (simp add: heads_def init_def)

lemma init_head: "init w as \<in> heads U w as"
  by (simp add: heads_def reach.start)

lemma loaded_demo_head:
  "\<not> bad_option as \<Longrightarrow>
   loaded_demo as \<in> heads demo [(''job.sl1'', Job ''x'')] (''job.sl1'' # as)"
  unfolding heads_def
  by (rule reach.iterate[OF reach.start])
    (simp_all add: evaluate_def init_def body_def format_token_def command_token_def
      commandMap_def demo_def has_extension_def defaultCachedLayers_def loaded_demo_def)

subsection \<open>Usage\<close>

text \<open>
  Claim C8, usage display. With an empty token list \<^verbatim>\<open>evaluate\<close> calls \<^verbatim>\<open>Usage\<close> and
  returns \<^verbatim>\<open>nil\<close>. At any loop head \<open>st\<close> of a run whose next token is \<^verbatim>\<open>help\<close>, the
  run ends in the state \<open>st\<close> with one more call, \<^verbatim>\<open>Usage\<close>: the returned error is that
  of \<open>st\<close>, which is \<^verbatim>\<open>nil\<close>, and nothing is resolved, decoded, encoded or filtered
  whatever the tokens \<open>rest\<close> after \<^verbatim>\<open>help\<close> are.
\<close>

theorem usage_display:
  "evaluate U w [] = Some \<lparr>input = None, err = None, args = [], world = w, trace = [CallUsage]\<rparr> \<and>
   (st \<in> heads U w as \<and> args st = ''help'' # rest \<longrightarrow>
      evaluate U w as = Some (st\<lparr>trace := trace st @ [CallUsage]\<rparr>) \<and> err st = None)"
proof (intro conjI impI)
  show "evaluate U w [] = Some \<lparr>input = None, err = None, args = [], world = w, trace = [CallUsage]\<rparr>"
    by (simp add: evaluate_def init_def)
next
  assume h: "st \<in> heads U w as \<and> args st = ''help'' # rest"
  then have b: "body U st = Return (st\<lparr>trace := trace st @ [CallUsage]\<rparr>)"
    by (simp add: body_def)
  from h have "evaluate U w as = loop U st" by (simp add: heads_evaluate)
  with h b show "evaluate U w as = Some (st\<lparr>trace := trace st @ [CallUsage]\<rparr>)"
    by (simp add: loop_Return)
next
  assume "st \<in> heads U w as \<and> args st = ''help'' # rest"
  then show "err st = None" by (blast dest: heads_err)
qed

text \<open>No token at all, and \<^verbatim>\<open>help\<close> after a decode with a token behind it.\<close>

theorem usage_display_witness:
  "evaluate demo [(''job.sl1'', Job ''x'')] [] =
     Some \<lparr>input = None, err = None, args = [], world = [(''job.sl1'', Job ''x'')],
       trace = [CallUsage]\<rparr> \<and>
   evaluate demo [(''job.sl1'', Job ''x'')] [''job.sl1'', ''help'', ''job.ctb''] =
     Some ((loaded_demo [''help'', ''job.ctb''])\<lparr>trace :=
       trace (loaded_demo [''help'', ''job.ctb'']) @ [CallUsage]\<rparr>) \<and>
   err (loaded_demo [''help'', ''job.ctb'']) = None"
  using usage_display[where U = demo and w = "[(''job.sl1'', Job ''x'')]"
      and st = "loaded_demo [''help'', ''job.ctb'']"
      and as = "[''job.sl1'', ''help'', ''job.ctb'']" and rest = "[''job.ctb'']"]
    loaded_demo_head[of "[''help'', ''job.ctb'']"]
  by (simp add: loaded_demo_def bad_option_def)

subsection \<open>Tokens that no registry knows\<close>

text \<open>
  Claim C4, as amended. At any loop head whose next token \<open>a\<close> is not \<^verbatim>\<open>help\<close>, is no
  key of \<^verbatim>\<open>commandMap\<close> and is refused by \<^verbatim>\<open>uv3dp.NewFormat\<close> with the error \<open>e\<close>,
  \<^verbatim>\<open>evaluate\<close> returns \<open>e\<close>; the call of \<^verbatim>\<open>NewFormat\<close> is the last call of the run, and
  the world is left as it was.
\<close>

theorem unrecognized_token:
  assumes "st \<in> heads U w as" and "args st = a # rest" and "a \<noteq> ''help''"
    and "commandMap U a = None" and "NewFormat U a rest = Inl e"
  shows "evaluate U w as = Some (st\<lparr>err := Some e, trace := trace st @ [CallNewFormat a rest]\<rparr>)"
proof -
  have "body U st = Return (st\<lparr>err := Some e, trace := trace st @ [CallNewFormat a rest]\<rparr>)"
    using assms by (simp add: body_def format_token_def)
  moreover have "evaluate U w as = loop U st" using assms by (simp add: heads_evaluate)
  ultimately show ?thesis using assms by (simp add: loop_Return)
qed

theorem unrecognized_token_witness:
  "evaluate demo [(''job.sl1'', Job ''x'')] [''job.sl1'', ''job.unknownext'', ''job.ctb''] =
     Some ((loaded_demo [''job.unknownext'', ''job.ctb''])\<lparr>err := Some UnrecognizedFormat,
       trace := trace (loaded_demo [''job.unknownext'', ''job.ctb'']) @
         [CallNewFormat ''job.unknownext'' [''job.ctb'']]\<rparr>)"
  using unrecognized_token[where st = "loaded_demo [''job.unknownext'', ''job.ctb'']"
      and U = demo and w = "[(''job.sl1'', Job ''x'')]"
      and as = "[''job.sl1'', ''job.unknownext'', ''job.ctb'']"
      and a = "''job.unknownext''" and rest = "[''job.ctb'']" and e = UnrecognizedFormat]
    loaded_demo_head[of "[''job.unknownext'', ''job.ctb'']"]
  by (simp add: loaded_demo_def commandMap_def demo_def has_extension_def bad_option_def)

text \<open>
  The claim as it is written fails at the token \<^verbatim>\<open>help\<close>: neither registry of the
  instance knows it, and \<^verbatim>\<open>evaluate\<close> returns \<^verbatim>\<open>nil\<close> without asking either.
\<close>

theorem unrecognized_token_counterexample:
  "commandMap demo ''help'' = None \<and>
   NewFormat demo ''help'' [''job.sl1''] = Inl UnrecognizedFormat \<and>
   evaluate demo [] [''help'', ''job.sl1''] =
     Some \<lparr>input = None, err = None, args = [''help'', ''job.sl1''], world = [],
       trace = [CallUsage]\<rparr>"
  by (simp add: run_simps)

subsection \<open>Failures\<close>

text \<open>
  Claim C9, fail-fast propagation. At any loop head \<open>st\<close> of a run (no step before it
  has failed: \<open>err st\<close> is \<^verbatim>\<open>nil\<close>) whose next token is not \<^verbatim>\<open>help\<close>: when format
  resolution, format parse, decode, encode, command parse or filter fails with an error,
  \<^verbatim>\<open>evaluate\<close> returns that error. The failing call is the last call of the run, the
  calls made before it stay in the log, and the world is the one the failing call has
  left (what earlier encodes have written is not undone).
\<close>

theorem fail_fast:
  assumes "st \<in> heads U w as" and "args st = a # rest" and "a \<noteq> ''help''"
  shows
   "err st = None \<and>
    (commandMap U a = None \<and> NewFormat U a rest = Inl e1 \<longrightarrow>
       evaluate U w as =
         Some (st\<lparr>err := Some e1, trace := trace st @ [CallNewFormat a rest]\<rparr>)) \<and>
    (commandMap U a = None \<and> NewFormat U a rest = Inr f2 \<and> FormatParse U f2 rest = Inl e2 \<longrightarrow>
       evaluate U w as =
         Some (st\<lparr>err := Some e2,
           trace := trace st @ [CallNewFormat a rest, CallFormatParse f2 rest]\<rparr>)) \<and>
    (commandMap U a = None \<and> NewFormat U a rest = Inr f3 \<and> FormatParse U f3 rest = Inr g3 \<and>
     input st = None \<and> Printable U g3 (world st) = (Inl e3, w3) \<longrightarrow>
       evaluate U w as =
         Some (st\<lparr>err := Some e3, args := FormatArgs U g3, world := w3,
           trace := trace st @
             [CallNewFormat a rest, CallFormatParse f3 rest, CallPrintable g3]\<rparr>)) \<and>
    (commandMap U a = None \<and> NewFormat U a rest = Inr f4 \<and> FormatParse U f4 rest = Inr g4 \<and>
     input st = Some p4 \<and> SetPrintable U g4 p4 (world st) = (Some e4, w4) \<longrightarrow>
       evaluate U w as =
         Some (st\<lparr>err := Some e4, args := FormatArgs U g4, world := w4,
           trace := trace st @
             [CallNewFormat a rest, CallFormatParse f4 rest, CallSetPrintable g4 p4]\<rparr>)) \<and>
    (commandMap U a = Some it5 \<and> Parse U (NewCommander it5) rest = Inl e5 \<longrightarrow>
       evaluate U w as =
         Some (st\<lparr>err := Some e5,
           trace := trace st @ [CallNewCommander a, CallParse (NewCommander it5) rest]\<rparr>)) \<and>
    (commandMap U a = Some it6 \<and> Parse U (NewCommander it6) rest = Inr c6 \<and>
     Filter U c6 (input st) (world st) = (Inl e6, w6) \<longrightarrow>
       evaluate U w as =
         Some (st\<lparr>err := Some e6, args := Args U c6, world := w6,
           trace := trace st @
             [CallNewCommander a, CallParse (NewCommander it6) rest,
              CallFilter c6 (input st)]\<rparr>))"
proof -
  have ev: "evaluate U w as = loop U st" using assms by (simp add: heads_evaluate)
  have ret: "\<And>st'. body U st = Return st' \<Longrightarrow> evaluate U w as = Some st'"
    using assms ev by (simp add: loop_Return)
  have 0: "err st = None" using assms(1) by (rule heads_err)
  have 1: "commandMap U a = None \<and> NewFormat U a rest = Inl e1 \<longrightarrow>
       evaluate U w as =
         Some (st\<lparr>err := Some e1, trace := trace st @ [CallNewFormat a rest]\<rparr>)"
    using assms by (auto intro!: ret simp: body_def format_token_def)
  have 2: "commandMap U a = None \<and> NewFormat U a rest = Inr f2 \<and> FormatParse U f2 rest = Inl e2 \<longrightarrow>
       evaluate U w as =
         Some (st\<lparr>err := Some e2,
           trace := trace st @ [CallNewFormat a rest, CallFormatParse f2 rest]\<rparr>)"
    using assms by (auto intro!: ret simp: body_def format_token_def)
  have 3: "commandMap U a = None \<and> NewFormat U a rest = Inr f3 \<and> FormatParse U f3 rest = Inr g3 \<and>
     input st = None \<and> Printable U g3 (world st) = (Inl e3, w3) \<longrightarrow>
       evaluate U w as =
         Some (st\<lparr>err := Some e3, args := FormatArgs U g3, world := w3,
           trace := trace st @
             [CallNewFormat a rest, CallFormatParse f3 rest, CallPrintable g3]\<rparr>)"
    using assms by (auto intro!: ret simp: body_def format_token_def)
  have 4: "commandMap U a = None \<and> NewFormat U a rest = Inr f4 \<and> FormatParse U f4 rest = Inr g4 \<and>
     input st = Some p4 \<and> SetPrintable U g4 p4 (world st) = (Some e4, w4) \<longrightarrow>
       evaluate U w as =
         Some (st\<lparr>err := Some e4, args := FormatArgs U g4, world := w4,
           trace := trace st @
             [CallNewFormat a rest, CallFormatParse f4 rest, CallSetPrintable g4 p4]\<rparr>)"
    using assms by (auto intro!: ret simp: body_def format_token_def)
  have 5: "commandMap U a = Some it5 \<and> Parse U (NewCommander it5) rest = Inl e5 \<longrightarrow>
       evaluate U w as =
         Some (st\<lparr>err := Some e5,
           trace := trace st @ [CallNewCommander a, CallParse (NewCommander it5) rest]\<rparr>)"
    using assms by (auto intro!: ret simp: body_def command_token_def)
  have 6: "commandMap U a = Some it6 \<and> Parse U (NewCommander it6) rest = Inr c6 \<and>
     Filter U c6 (input st) (world st) = (Inl e6, w6) \<longrightarrow>
       evaluate U w as =
         Some (st\<lparr>err := Some e6, args := Args U c6, world := w6,
           trace := trace st @
             [CallNewCommander a, CallParse (NewCommander it6) rest,
              CallFilter c6 (input st)]\<rparr>)"
    using assms by (auto intro!: ret simp: body_def command_token_def)
  show ?thesis using 0 1 2 3 4 5 6 by blast
qed

text \<open>
  One run for each of the six failures: a token without a known extension after a
  decode and an encode; a format with a bad option; a decode of a file that does not
  exist; an encode to a file that cannot be written; a command with a bad option; a
  filter without input.
\<close>

theorem fail_fast_witness:
  "evaluate demo [(''job.sl1'', Job ''x'')] [''job.sl1'', ''job.ctb'', ''job.unknownext'', ''job2.ctb''] =
     Some \<lparr>input = Some (CachedJob (Some (Job ''x'')) 64), err = Some UnrecognizedFormat,
       args = [''job.unknownext'', ''job2.ctb''],
       world = [(''job.ctb'', CachedJob (Some (Job ''x'')) 64), (''job.sl1'', Job ''x'')],
       trace = [CallNewFormat ''job.sl1'' [''job.ctb'', ''job.unknownext'', ''job2.ctb''],
         CallFormatParse (''job.sl1'', []) [''job.ctb'', ''job.unknownext'', ''job2.ctb''],
         CallPrintable (''job.sl1'', [''job.ctb'', ''job.unknownext'', ''job2.ctb'']),
         CallNewCachedPrintable (Some (Job ''x'')) 64,
         CallNewFormat ''job.ctb'' [''job.unknownext'', ''job2.ctb''],
         CallFormatParse (''job.ctb'', []) [''job.unknownext'', ''job2.ctb''],
         CallSetPrintable (''job.ctb'', [''job.unknownext'', ''job2.ctb''])
           (CachedJob (Some (Job ''x'')) 64),
         CallNewFormat ''job.unknownext'' [''job2.ctb'']]\<rparr> \<and>
   evaluate demo [] [''job.sl1'', ''--bad''] =
     Some \<lparr>input = None, err = Some BadOption, args = [''job.sl1'', ''--bad''], world = [],
       trace = [CallNewFormat ''job.sl1'' [''--bad''],
         CallFormatParse (''job.sl1'', []) [''--bad'']]\<rparr> \<and>
   evaluate demo [] [''job.sl1'', ''job.ctb''] =
     Some \<lparr>input = None, err = Some DecodeError, args = [''job.ctb''], world = [],
       trace = [CallNewFormat ''job.sl1'' [''job.ctb''],
         CallFormatParse (''job.sl1'', []) [''job.ctb''],
         CallPrintable (''job.sl1'', [''job.ctb''])]\<rparr> \<and>
   evaluate demo [(''job.sl1'', Job ''x'')] [''job.sl1'', ''readonly.ctb'', ''job.ctb''] =
     Some ((loaded_demo [''readonly.ctb'', ''job.ctb''])\<lparr>err := Some EncodeError,
       args := [''job.ctb''],
       trace := trace (loaded_demo [''readonly.ctb'', ''job.ctb'']) @
         [CallNewFormat ''readonly.ctb'' [''job.ctb''],
          CallFormatParse (''readonly.ctb'', []) [''job.ctb''],
          CallSetPrintable (''readonly.ctb'', [''job.ctb'']) (CachedJob (Some (Job ''x'')) 64)]\<rparr>) \<and>
   evaluate demo [] [''decimate'', ''--bad''] =
     Some \<lparr>input = None, err = Some BadOption, args = [''decimate'', ''--bad''], world = [],
       trace = [CallNewCommander ''decimate'', CallParse (''decimate'', []) [''--bad'']]\<rparr> \<and>
   evaluate demo [] [''decimate'', ''job.sl1''] =
     Some \<lparr>input = None, err = Some NoInputError, args = [''job.sl1''], world = [],
       trace = [CallNewCommander ''decimate'', CallParse (''decimate'', []) [''job.sl1''],
         CallFilter (''decimate'', [''job.sl1'']) None]\<rparr>"
proof -
  let ?w = "[(''job.sl1'', Job ''x'')]"
  let ?as = "[''job.sl1'', ''job.ctb'', ''job.unknownext'', ''job2.ctb'']"
  let ?st = "\<lparr>input = Some (CachedJob (Some (Job ''x'')) 64), err = None,
       args = [''job.unknownext'', ''job2.ctb''],
       world = [(''job.ctb'', CachedJob (Some (Job ''x'')) 64), (''job.sl1'', Job ''x'')],
       trace = [CallNewFormat ''job.sl1'' [''job.ctb'', ''job.unknownext'', ''job2.ctb''],
         CallFormatParse (''job.sl1'', []) [''job.ctb'', ''job.unknownext'', ''job2.ctb''],
         CallPrintable (''job.sl1'', [''job.ctb'', ''job.unknownext'', ''job2.ctb'']),
         CallNewCachedPrintable (Some (Job ''x'')) 64,
         CallNewFormat ''job.ctb'' [''job.unknownext'', ''job2.ctb''],
         CallFormatParse (''job.ctb'', []) [''job.unknownext'', ''job2.ctb''],
         CallSetPrintable (''job.ctb'', [''job.unknownext'', ''job2.ctb''])
           (CachedJob (Some (Job ''x'')) 64)]\<rparr>"
  let ?decimate = "\<lparr>NewCommander = (''decimate'', []), Description = ''Remove outmost pixels of all islands in each layer (reduces over-curing on edges)''\<rparr>"
  have h1: "loaded_demo [''job.ctb'', ''job.unknownext'', ''job2.ctb''] \<in> reach demo (init ?w ?as)"
    using loaded_demo_head[of "[''job.ctb'', ''job.unknownext'', ''job2.ctb'']"]
    by (simp add: heads_def bad_option_def)
  have h: "?st \<in> heads demo ?w ?as"
    unfolding heads_def
    by (rule reach.iterate[OF h1]) (simp_all add: run_simps loaded_demo_def)
  have a: "evaluate demo ?w ?as = Some (?st\<lparr>err := Some UnrecognizedFormat,
      trace := trace ?st @ [CallNewFormat ''job.unknownext'' [''job2.ctb'']]\<rparr>)"
    using fail_fast[where U = demo and w = ?w and as = ?as and st = ?st
        and a = "''job.unknownext''" and rest = "[''job2.ctb'']" and ?e1.0 = UnrecognizedFormat] h
    by (simp add: commandMap_def demo_def has_extension_def bad_option_def)
  have b: "evaluate demo [] [''job.sl1'', ''--bad''] =
      Some ((init [] [''job.sl1'', ''--bad''])\<lparr>err := Some BadOption,
        trace := [CallNewFormat ''job.sl1'' [''--bad''],
          CallFormatParse (''job.sl1'', []) [''--bad'']]\<rparr>)"
    using fail_fast[where U = demo and w = "[]" and as = "[''job.sl1'', ''--bad'']"
        and st = "init [] [''job.sl1'', ''--bad'']" and a = "''job.sl1''"
        and rest = "[''--bad'']" and ?f2.0 = "(''job.sl1'', [])" and ?e2.0 = BadOption]
      init_head[of "[]" "[''job.sl1'', ''--bad'']" demo]
    by (simp add: commandMap_def demo_def has_extension_def bad_option_def init_def)
  have c: "evaluate demo [] [''job.sl1'', ''job.ctb''] =
      Some ((init [] [''job.sl1'', ''job.ctb''])\<lparr>err := Some DecodeError, args := [''job.ctb''],
        world := [],
        trace := [CallNewFormat ''job.sl1'' [''job.ctb''],
          CallFormatParse (''job.sl1'', []) [''job.ctb''],
          CallPrintable (''job.sl1'', [''job.ctb''])]\<rparr>)"
    using fail_fast[where U = demo and w = "[]" and as = "[''job.sl1'', ''job.ctb'']"
        and st = "init [] [''job.sl1'', ''job.ctb'']" and a = "''job.sl1''"
        and rest = "[''job.ctb'']" and ?f3.0 = "(''job.sl1'', [])"
        and ?g3.0 = "(''job.sl1'', [''job.ctb''])" and ?e3.0 = DecodeError and ?w3.0 = "[]"]
      init_head[of "[]" "[''job.sl1'', ''job.ctb'']" demo]
    by (simp add: commandMap_def demo_def has_extension_def bad_option_def init_def)
  have d: "evaluate demo ?w [''job.sl1'', ''readonly.ctb'', ''job.ctb''] =
      Some ((loaded_demo [''readonly.ctb'', ''job.ctb''])\<lparr>err := Some EncodeError,
        args := [''job.ctb''], world := ?w,
        trace := trace (loaded_demo [''readonly.ctb'', ''job.ctb'']) @
          [CallNewFormat ''readonly.ctb'' [''job.ctb''],
           CallFormatParse (''readonly.ctb'', []) [''job.ctb''],
           CallSetPrintable (''readonly.ctb'', [''job.ctb'']) (CachedJob (Some (Job ''x'')) 64)]\<rparr>)"
    using fail_fast[where U = demo and w = ?w and as = "[''job.sl1'', ''readonly.ctb'', ''job.ctb'']"
        and st = "loaded_demo [''readonly.ctb'', ''job.ctb'']" and a = "''readonly.ctb''"
        and rest = "[''job.ctb'']" and ?f4.0 = "(''readonly.ctb'', [])"
        and ?g4.0 = "(''readonly.ctb'', [''job.ctb''])" and ?p4.0 = "CachedJob (Some (Job ''x'')) 64"
        and ?e4.0 = EncodeError and ?w4.0 = ?w]
      loaded_demo_head[of "[''readonly.ctb'', ''job.ctb'']"]
    by (simp add: commandMap_def demo_def has_extension_def bad_option_def loaded_demo_def)
  have e: "evaluate demo [] [''decimate'', ''--bad''] =
      Some ((init [] [''decimate'', ''--bad''])\<lparr>err := Some BadOption,
        trace := [CallNewCommander ''decimate'', CallParse (''decimate'', []) [''--bad'']]\<rparr>)"
    using fail_fast[where U = demo and w = "[]" and as = "[''decimate'', ''--bad'']"
        and st = "init [] [''decimate'', ''--bad'']" and a = "''decimate''"
        and rest = "[''--bad'']" and ?it5.0 = ?decimate and ?e5.0 = BadOption]
      init_head[of "[]" "[''decimate'', ''--bad'']" demo]
    by (simp add: commandMap_def demo_def bad_option_def init_def)
  have f: "evaluate demo [] [''decimate'', ''job.sl1''] =
      Some ((init [] [''decimate'', ''job.sl1''])\<lparr>err := Some NoInputError, args := [''job.sl1''],
        world := [],
        trace := [CallNewCommander ''decimate'', CallParse (''decimate'', []) [''job.sl1''],
          CallFilter (''decimate'', [''job.sl1'']) None]\<rparr>)"
    using fail_fast[where U = demo and w = "[]" and as = "[''decimate'', ''job.sl1'']"
        and st = "init [] [''decimate'', ''job.sl1'']" and a = "''decimate''"
        and rest = "[''job.sl1'']" and ?it6.0 = ?decimate
        and ?c6.0 = "(''decimate'', [''job.sl1''])" and ?e6.0 = NoInputError and ?w6.0 = "[]"]
      init_head[of "[]" "[''decimate'', ''job.sl1'']" demo]
    by (simp add: commandMap_def demo_def bad_option_def init_def)
  show ?thesis using a b c d e f by (simp add: init_def loaded_demo_def)
qed

subsection \<open>Encoding\<close>

text \<open>
  Claim C5, encode is read-only. When a format token is processed (it resolves and
  parses) in a state whose live value is \<open>p\<close>, the iteration calls \<^verbatim>\<open>SetPrintable\<close> on
  \<open>p\<close>, once, and whether the encode fails or not the live value after the iteration
  is \<open>p\<close>.
\<close>

theorem encode_read_only:
  assumes "args st = a # rest" and "a \<noteq> ''help''" and "commandMap U a = None"
    and "NewFormat U a rest = Inr f0" and "FormatParse U f0 rest = Inr f"
    and "input st = Some p"
  shows "\<exists>st'. (body U st = Next st' \<or> body U st = Return st') \<and>
     input st' = Some p \<and> args st' = FormatArgs U f \<and>
     trace st' = trace st @ [CallNewFormat a rest, CallFormatParse f0 rest, CallSetPrintable f p] \<and>
     world st' = snd (SetPrintable U f p (world st)) \<and>
     err st' = fst (SetPrintable U f p (world st)) \<and>
     (body U st = Next st') = (fst (SetPrintable U f p (world st)) = None)"
proof (cases "SetPrintable U f p (world st)")
  case (Pair r w')
  show ?thesis
  proof (cases r)
    case None
    with Pair assms show ?thesis
      by (simp add: body_def format_token_def)
  next
    case (Some e)
    with Pair assms show ?thesis
      by (simp add: body_def format_token_def)
  qed
qed

theorem encode_read_only_witness:
  "\<exists>st'. body demo (loaded_demo [''job.ctb'', ''job2.ctb'']) = Next st' \<and>
     input st' = Some (CachedJob (Some (Job ''x'')) 64) \<and>
     input (loaded_demo [''job.ctb'', ''job2.ctb'']) = Some (CachedJob (Some (Job ''x'')) 64) \<and>
     args st' = [''job2.ctb''] \<and>
     trace st' = trace (loaded_demo [''job.ctb'', ''job2.ctb'']) @
         [CallNewFormat ''job.ctb'' [''job2.ctb''], CallFormatParse (''job.ctb'', []) [''job2.ctb''],
          CallSetPrintable (''job.ctb'', [''job2.ctb'']) (CachedJob (Some (Job ''x'')) 64)] \<and>
     world st' = [(''job.ctb'', CachedJob (Some (Job ''x'')) 64), (''job.sl1'', Job ''x'')] \<and>
     err st' = None"
  using encode_read_only[where U = demo and st = "loaded_demo [''job.ctb'', ''job2.ctb'']"
      and a = "''job.ctb''" and rest = "[''job2.ctb'']" and ?f0.0 = "(''job.ctb'', [])"
      and f = "(''job.ctb'', [''job2.ctb''])" and p = "CachedJob (Some (Job ''x'')) 64"]
  by (auto simp: loaded_demo_def commandMap_def demo_def has_extension_def bad_option_def)

subsection \<open>A command without input\<close>

text \<open>
  Claim C2, as amended. At a loop head without a live value whose next token is a key
  of \<^verbatim>\<open>commandMap\<close>, the interpreter makes no decode and no encode. It returns the
  error of the command's \<^verbatim>\<open>Parse\<close> when that fails; otherwise it calls the command's
  \<^verbatim>\<open>Filter\<close> with \<^verbatim>\<open>nil\<close>, returns the error of \<^verbatim>\<open>Filter\<close> when that fails, and goes
  on with the output of \<^verbatim>\<open>Filter\<close> when it does not.
\<close>

theorem command_without_input:
  assumes "st \<in> heads U w as" and "input st = None" and "args st = a # rest"
    and "commandMap U a = Some it"
  shows
   "(Parse U (NewCommander it) rest = Inl e1 \<longrightarrow>
       evaluate U w as =
         Some (st\<lparr>err := Some e1,
           trace := trace st @ [CallNewCommander a, CallParse (NewCommander it) rest]\<rparr>)) \<and>
    (Parse U (NewCommander it) rest = Inr c \<and> Filter U c None (world st) = (Inl e2, w2) \<longrightarrow>
       evaluate U w as =
         Some (st\<lparr>err := Some e2, args := Args U c, world := w2,
           trace := trace st @
             [CallNewCommander a, CallParse (NewCommander it) rest, CallFilter c None]\<rparr>)) \<and>
    (Parse U (NewCommander it) rest = Inr c \<and> Filter U c None (world st) = (Inr out, w3) \<longrightarrow>
       body U st =
         Next (st\<lparr>input := out, err := None, args := Args U c, world := w3,
           trace := trace st @
             [CallNewCommander a, CallParse (NewCommander it) rest, CallFilter c None]\<rparr>))"
proof -
  have nh: "a \<noteq> ''help''" using assms(4) commandMap_help[of U] by auto
  have ev: "evaluate U w as = loop U st" using assms by (simp add: heads_evaluate)
  have ret: "\<And>st'. body U st = Return st' \<Longrightarrow> evaluate U w as = Some st'"
    using assms ev by (simp add: loop_Return)
  have 1: "Parse U (NewCommander it) rest = Inl e1 \<longrightarrow>
       evaluate U w as =
         Some (st\<lparr>err := Some e1,
           trace := trace st @ [CallNewCommander a, CallParse (NewCommander it) rest]\<rparr>)"
    using assms nh by (auto intro!: ret simp: body_def command_token_def)
  have 2: "Parse U (NewCommander it) rest = Inr c \<and> Filter U c None (world st) = (Inl e2, w2) \<longrightarrow>
       evaluate U w as =
         Some (st\<lparr>err := Some e2, args := Args U c, world := w2,
           trace := trace st @
             [CallNewCommander a, CallParse (NewCommander it) rest, CallFilter c None]\<rparr>)"
    using assms nh by (auto intro!: ret simp: body_def command_token_def)
  have 3: "Parse U (NewCommander it) rest = Inr c \<and> Filter U c None (world st) = (Inr out, w3) \<longrightarrow>
       body U st =
         Next (st\<lparr>input := out, err := None, args := Args U c, world := w3,
           trace := trace st @
             [CallNewCommander a, CallParse (NewCommander it) rest, CallFilter c None]\<rparr>)"
    using assms nh by (auto simp: body_def command_token_def)
  show ?thesis using 1 2 3 by blast
qed

text \<open>
  A command with a bad option, a filter that fails without input, and a filter that
  accepts \<^verbatim>\<open>nil\<close>, each as the first token.
\<close>

theorem command_without_input_witness:
  "evaluate demo [(''job.sl1'', Job ''x'')] [''decimate'', ''--bad''] =
     Some \<lparr>input = None, err = Some BadOption, args = [''decimate'', ''--bad''],
       world = [(''job.sl1'', Job ''x'')],
       trace = [CallNewCommander ''decimate'', CallParse (''decimate'', []) [''--bad'']]\<rparr> \<and>
   evaluate demo [(''job.sl1'', Job ''x'')] [''decimate'', ''job.sl1''] =
     Some \<lparr>input = None, err = Some NoInputError, args = [''job.sl1''],
       world = [(''job.sl1'', Job ''x'')],
       trace = [CallNewCommander ''decimate'', CallParse (''decimate'', []) [''job.sl1''],
         CallFilter (''decimate'', [''job.sl1'']) None]\<rparr> \<and>
   body demo_nil (init [(''job.sl1'', Job ''x'')] [''decimate'', ''job.sl1'']) =
     Next \<lparr>input = None, err = None, args = [''job.sl1''], world = [(''job.sl1'', Job ''x'')],
       trace = [CallNewCommander ''decimate'', CallParse (''decimate'', []) [''job.sl1''],
         CallFilter (''decimate'', [''job.sl1'']) None]\<rparr>"
proof -
  let ?w = "[(''job.sl1'', Job ''x'')]"
  let ?decimate = "\<lparr>NewCommander = (''decimate'', []), Description = ''Remove outmost pixels of all islands in each layer (reduces over-curing on edges)''\<rparr>"
  have a: "evaluate demo ?w [''decimate'', ''--bad''] =
     Some \<lparr>input = None, err = Some BadOption, args = [''decimate'', ''--bad''], world = ?w,
       trace = [CallNewCommander ''decimate'', CallParse (''decimate'', []) [''--bad'']]\<rparr>"
    using command_without_input[where U = demo and w = ?w and as = "[''decimate'', ''--bad'']"
        and st = "init ?w [''decimate'', ''--bad'']" and a = "''decimate''" and rest = "[''--bad'']"
        and it = ?decimate and ?e1.0 = BadOption]
      init_head[of ?w "[''decimate'', ''--bad'']" demo]
    by (simp add: commandMap_def demo_def bad_option_def init_def)
  have b: "evaluate demo ?w [''decimate'', ''job.sl1''] =
     Some \<lparr>input = None, err = Some NoInputError, args = [''job.sl1''], world = ?w,
       trace = [CallNewCommander ''decimate'', CallParse (''decimate'', []) [''job.sl1''],
         CallFilter (''decimate'', [''job.sl1'']) None]\<rparr>"
    using command_without_input[where U = demo and w = ?w and as = "[''decimate'', ''job.sl1'']"
        and st = "init ?w [''decimate'', ''job.sl1'']" and a = "''decimate''"
        and rest = "[''job.sl1'']" and it = ?decimate
        and c = "(''decimate'', [''job.sl1''])" and ?e2.0 = NoInputError and ?w2.0 = ?w]
      init_head[of ?w "[''decimate'', ''job.sl1'']" demo]
    by (simp add: commandMap_def demo_def bad_option_def init_def)
  have c: "body demo_nil (init ?w [''decimate'', ''job.sl1'']) =
     Next \<lparr>input = None, err = None, args = [''job.sl1''], world = ?w,
       trace = [CallNewCommander ''decimate'', CallParse (''decimate'', []) [''job.sl1''],
         CallFilter (''decimate'', [''job.sl1'']) None]\<rparr>"
    using command_without_input[where U = demo_nil and w = ?w and as = "[''decimate'', ''job.sl1'']"
        and st = "init ?w [''decimate'', ''job.sl1'']" and a = "''decimate''"
        and rest = "[''job.sl1'']" and it = ?decimate
        and c = "(''decimate'', [''job.sl1''])" and out = None and ?w3.0 = ?w]
      init_head[of ?w "[''decimate'', ''job.sl1'']" demo_nil]
    by (simp add: commandMap_def demo_def demo_nil_def bad_option_def init_def)
  show ?thesis using a b c by simp
qed

text \<open>
  The claim as it is written fails: the interpreter has no check of its own, it calls
  \<^verbatim>\<open>Filter\<close> with \<^verbatim>\<open>nil\<close>, and with a \<^verbatim>\<open>Filter\<close> that accepts \<^verbatim>\<open>nil\<close> the run succeeds.
\<close>

theorem command_without_input_counterexample:
  "commandMap demo_nil ''decimate'' \<noteq> None \<and>
   evaluate demo_nil [(''job.sl1'', Job ''x'')] [''decimate''] =
     Some \<lparr>input = None, err = None, args = [], world = [(''job.sl1'', Job ''x'')],
       trace = [CallNewCommander ''decimate'', CallParse (''decimate'', []) [],
         CallFilter (''decimate'', []) None]\<rparr>"
  by (simp add: run_simps)

subsection \<open>Invariants of the loop\<close>

text \<open>
  A property \<open>I\<close> that holds at the first loop head and that every iteration keeps
  holds at every loop head; what follows from it when the loop ends, or when an
  iteration returns, holds of the final state.
\<close>

lemma loop_rule:
  assumes run: "loop U st = Some fin"
    and base: "I st"
    and stp: "\<And>s s'. I s \<Longrightarrow> args s \<noteq> [] \<Longrightarrow> body U s = Next s' \<Longrightarrow> I s'"
    and nil: "\<And>s. I s \<Longrightarrow> args s = [] \<Longrightarrow> Q s"
    and ret: "\<And>s s'. I s \<Longrightarrow> args s \<noteq> [] \<Longrightarrow> body U s = Return s' \<Longrightarrow> Q s'"
  shows "Q fin"
proof -
  have "V = U \<longrightarrow> I s \<longrightarrow> Q r" if "loop V s = Some r" for V s r
    using that
  proof (rule loop.raw_induct[rotated, where P = "\<lambda>V s r. V = U \<longrightarrow> I s \<longrightarrow> Q r"])
    fix loop' V s r
    assume ih: "\<And>a b y. loop' a b = Some y \<Longrightarrow> a = U \<longrightarrow> I b \<longrightarrow> Q y"
      and eq: "(if args s = [] then Some s
                else case body V s of Return st' \<Rightarrow> Some st' | Next st' \<Rightarrow> loop' V st') = Some r"
    show "V = U \<longrightarrow> I s \<longrightarrow> Q r"
    proof (intro impI)
      assume v: "V = U" and i: "I s"
      show "Q r"
      proof (cases "args s = []")
        case True
        with eq have "r = s" by simp
        with i True show ?thesis by (simp add: nil)
      next
        case False
        show ?thesis
        proof (cases "body U s")
          case (Return s')
          with eq False v have "r = s'" by simp
          with i False Return show ?thesis by (auto intro: ret)
        next
          case (Next s')
          with eq False v have "loop' U s' = Some r" by simp
          then have "U = U \<longrightarrow> I s' \<longrightarrow> Q r" by (rule ih)
          moreover have "I s'" using i False Next by (rule stp)
          ultimately show ?thesis by simp
        qed
      qed
    qed
  qed
  with run base show ?thesis by blast
qed

subsection \<open>Termination\<close>

lemma body_Next_shorter:
  assumes "\<forall>f rest f'. FormatParse U f rest = Inr f' \<longrightarrow> subseq (FormatArgs U f') rest"
    and "\<forall>c rest c'. Parse U c rest = Inr c' \<longrightarrow> subseq (Args U c') rest"
    and "args st \<noteq> []" and "body U st = Next st'"
  shows "length (args st') < length (args st)"
proof -
  obtain a rest where ar: "args st = a # rest" using assms(3) by (cases "args st") auto
  show ?thesis
  proof (cases "commandMap U a")
    case None
    with assms(4) ar obtain f0 f where "FormatParse U f0 rest = Inr f" "args st' = FormatArgs U f"
      by (auto simp: body_def format_token_def Let_def
          split: if_splits sum.splits option.splits prod.splits)
    with assms(1) have "length (args st') \<le> length rest"
      by (auto dest: list_emb_length)
    with ar show ?thesis by simp
  next
    case (Some it)
    with assms(4) ar obtain c0 c where "Parse U c0 rest = Inr c" "args st' = Args U c"
      by (auto simp: body_def command_token_def Let_def
          split: if_splits sum.splits option.splits prod.splits)
    with assms(2) have "length (args st') \<le> length rest"
      by (auto dest: list_emb_length)
    with ar show ?thesis by simp
  qed
qed

lemma loop_terminates:
  assumes "\<forall>f rest f'. FormatParse U f rest = Inr f' \<longrightarrow> subseq (FormatArgs U f') rest"
    and "\<forall>c rest c'. Parse U c rest = Inr c' \<longrightarrow> subseq (Args U c') rest"
  shows "\<exists>fin. loop U st = Some fin"
proof (induction "length (args st)" arbitrary: st rule: less_induct)
  case less
  show ?case
  proof (cases "args st = []")
    case True
    then show ?thesis by (simp add: loop_Nil)
  next
    case False
    show ?thesis
    proof (cases "body U st")
      case (Return s')
      with False show ?thesis by (simp add: loop_Return)
    next
      case (Next s')
      with False have "length (args s') < length (args st)"
        using body_Next_shorter[OF assms] by blast
      then have "\<exists>fin. loop U s' = Some fin" by (rule less)
      with False Next show ?thesis by (simp add: loop_Next)
    qed
  qed
qed

text \<open>
  Claim C10, termination. When each \<^verbatim>\<open>Args()\<close>, of a format and of a command, returns
  a sub-list of the tokens its \<^verbatim>\<open>Parse\<close> was handed, \<^verbatim>\<open>evaluate\<close> returns for every
  argument list, and an iteration that does not return leaves fewer tokens than it
  found.
\<close>

theorem evaluate_terminates:
  assumes "\<forall>f rest f'. FormatParse U f rest = Inr f' \<longrightarrow> subseq (FormatArgs U f') rest"
    and "\<forall>c rest c'. Parse U c rest = Inr c' \<longrightarrow> subseq (Args U c') rest"
  shows "(\<exists>fin. evaluate U w as = Some fin) \<and>
    (args st \<noteq> [] \<and> body U st = Next st' \<longrightarrow> length (args st') < length (args st))"
  using loop_terminates[OF assms, of "init w as"] body_Next_shorter[OF assms, of st st']
  by (simp add: evaluate_def)

lemma demo_format_args: "\<forall>f rest f'. FormatParse demo f rest = Inr f' \<longrightarrow> subseq (FormatArgs demo f') rest"
  by (auto simp: demo_def)

lemma demo_command_args: "\<forall>c rest c'. Parse demo c rest = Inr c' \<longrightarrow> subseq (Args demo c') rest"
  by (auto simp: demo_def)

theorem evaluate_terminates_witness:
  "(\<exists>fin. evaluate demo [(''job.sl1'', Job ''x'')] [''job.sl1'', ''decimate'', ''job.ctb''] = Some fin) \<and>
   body demo (loaded_demo [''decimate'', ''job.ctb'']) =
     Next ((loaded_demo [''decimate'', ''job.ctb''])\<lparr>args := [''job.ctb''],
       trace := trace (loaded_demo [''decimate'', ''job.ctb'']) @
         [CallNewCommander ''decimate'', CallParse (''decimate'', []) [''job.ctb''],
          CallFilter (''decimate'', [''job.ctb'']) (Some (CachedJob (Some (Job ''x'')) 64))]\<rparr>) \<and>
   length [''job.ctb''] < length (args (loaded_demo [''decimate'', ''job.ctb'']))"
  using evaluate_terminates[OF demo_format_args demo_command_args,
      where w = "[(''job.sl1'', Job ''x'')]" and as = "[''job.sl1'', ''decimate'', ''job.ctb'']"
      and st = "loaded_demo [''decimate'', ''job.ctb'']"
      and st' = "(loaded_demo [''decimate'', ''job.ctb''])\<lparr>args := [''job.ctb''],
       trace := trace (loaded_demo [''decimate'', ''job.ctb'']) @
         [CallNewCommander ''decimate'', CallParse (''decimate'', []) [''job.ctb''],
          CallFilter (''decimate'', [''job.ctb'']) (Some (CachedJob (Some (Job ''x'')) 64))]\<rparr>"]
  by (simp add: loaded_demo_def body_def command_token_def commandMap_def demo_def bad_option_def)

subsection \<open>The ten ways through one iteration\<close>

text \<open>
  One iteration on the head token \<open>a\<close>: \<^verbatim>\<open>help\<close>; a format token that fails to
  resolve, fails to parse, fails to decode, decodes, fails to encode, or encodes; a
  command token that fails to parse, whose filter fails, or whose filter returns.
\<close>

lemma body_cases [consumes 1, case_names Help NoFormat BadFormat DecodeFail Decode EncodeFail Encode
    BadCommand FilterFail Filter]:
  assumes "args s = a # rest"
  obtains
    (Help) "a = ''help''"
      "body U s = Return (s\<lparr>trace := trace s @ [CallUsage]\<rparr>)"
  | (NoFormat) e where "a \<noteq> ''help''" "commandMap U a = None" "NewFormat U a rest = Inl e"
      "body U s = Return (s\<lparr>err := Some e, trace := trace s @ [CallNewFormat a rest]\<rparr>)"
  | (BadFormat) f0 e where "a \<noteq> ''help''" "commandMap U a = None" "NewFormat U a rest = Inr f0"
      "FormatParse U f0 rest = Inl e"
      "body U s = Return (s\<lparr>err := Some e,
         trace := trace s @ [CallNewFormat a rest, CallFormatParse f0 rest]\<rparr>)"
  | (DecodeFail) f0 f e w' where "a \<noteq> ''help''" "commandMap U a = None"
      "NewFormat U a rest = Inr f0" "FormatParse U f0 rest = Inr f" "input s = None"
      "Printable U f (world s) = (Inl e, w')"
      "body U s = Return (s\<lparr>err := Some e, args := FormatArgs U f, world := w',
         trace := trace s @ [CallNewFormat a rest, CallFormatParse f0 rest, CallPrintable f]\<rparr>)"
  | (Decode) f0 f p w' where "a \<noteq> ''help''" "commandMap U a = None"
      "NewFormat U a rest = Inr f0" "FormatParse U f0 rest = Inr f" "input s = None"
      "Printable U f (world s) = (Inr p, w')"
      "body U s = Next (s\<lparr>input := Some (NewCachedPrintable U p defaultCachedLayers),
         err := None, args := FormatArgs U f, world := w',
         trace := trace s @ [CallNewFormat a rest, CallFormatParse f0 rest, CallPrintable f,
           CallNewCachedPrintable p defaultCachedLayers]\<rparr>)"
  | (EncodeFail) f0 f v e w' where "a \<noteq> ''help''" "commandMap U a = None"
      "NewFormat U a rest = Inr f0" "FormatParse U f0 rest = Inr f" "input s = Some v"
      "SetPrintable U f v (world s) = (Some e, w')"
      "body U s = Return (s\<lparr>err := Some e, args := FormatArgs U f, world := w',
         trace := trace s @ [CallNewFormat a rest, CallFormatParse f0 rest,
           CallSetPrintable f v]\<rparr>)"
  | (Encode) f0 f v w' where "a \<noteq> ''help''" "commandMap U a = None"
      "NewFormat U a rest = Inr f0" "FormatParse U f0 rest = Inr f" "input s = Some v"
      "SetPrintable U f v (world s) = (None, w')"
      "body U s = Next (s\<lparr>err := None, args := FormatArgs U f, world := w',
         trace := trace s @ [CallNewFormat a rest, CallFormatParse f0 rest,
           CallSetPrintable f v]\<rparr>)"
  | (BadCommand) it e where "a \<noteq> ''help''" "commandMap U a = Some it"
      "Parse U (NewCommander it) rest = Inl e"
      "body U s = Return (s\<lparr>err := Some e,
         trace := trace s @ [CallNewCommander a, CallParse (NewCommander it) rest]\<rparr>)"
  | (FilterFail) it c e w' where "a \<noteq> ''help''" "commandMap U a = Some it"
      "Parse U (NewCommander it) rest = Inr c" "Filter U c (input s) (world s) = (Inl e, w')"
      "body U s = Return (s\<lparr>err := Some e, args := Args U c, world := w',
         trace := trace s @ [CallNewCommander a, CallParse (NewCommander it) rest,
           CallFilter c (input s)]\<rparr>)"
  | (Filter) it c out w' where "a \<noteq> ''help''" "commandMap U a = Some it"
      "Parse U (NewCommander it) rest = Inr c" "Filter U c (input s) (world s) = (Inr out, w')"
      "body U s = Next (s\<lparr>input := out, err := None, args := Args U c, world := w',
         trace := trace s @ [CallNewCommander a, CallParse (NewCommander it) rest,
           CallFilter c (input s)]\<rparr>)"
proof (cases "a = ''help''")
  case True
  with assms Help show ?thesis by (simp add: body_def)
next
  case nh: False
  show ?thesis
  proof (cases "commandMap U a")
    case None
    show ?thesis
    proof (cases "NewFormat U a rest")
      case (Inl e)
      with assms nh None NoFormat show ?thesis by (simp add: body_def format_token_def)
    next
      case f0: (Inr f0)
      show ?thesis
      proof (cases "FormatParse U f0 rest")
        case (Inl e)
        with assms nh None f0 BadFormat show ?thesis by (simp add: body_def format_token_def)
      next
        case f: (Inr f)
        show ?thesis
        proof (cases "input s")
          case i: None
          obtain r w' where p: "Printable U f (world s) = (r, w')"
            by (cases "Printable U f (world s)")
          show ?thesis
          proof (cases r)
            case (Inl e)
            with assms nh None f0 f i p DecodeFail show ?thesis
              by (simp add: body_def format_token_def)
          next
            case (Inr v)
            with assms nh None f0 f i p Decode show ?thesis
              by (simp add: body_def format_token_def)
          qed
        next
          case i: (Some v)
          obtain r w' where p: "SetPrintable U f v (world s) = (r, w')"
            by (cases "SetPrintable U f v (world s)")
          show ?thesis
          proof (cases r)
            case None' : None
            with assms nh None f0 f i p Encode show ?thesis
              by (simp add: body_def format_token_def)
          next
            case (Some e)
            with assms nh None f0 f i p EncodeFail show ?thesis
              by (simp add: body_def format_token_def)
          qed
        qed
      qed
    qed
  next
    case it: (Some it)
    show ?thesis
    proof (cases "Parse U (NewCommander it) rest")
      case (Inl e)
      with assms nh it BadCommand show ?thesis by (simp add: body_def command_token_def)
    next
      case c: (Inr c)
      obtain r w' where p: "Filter U c (input s) (world s) = (r, w')"
        by (cases "Filter U c (input s) (world s)")
      show ?thesis
      proof (cases r)
        case (Inl e)
        with assms nh it c p FilterFail show ?thesis by (simp add: body_def command_token_def)
      next
        case (Inr out)
        with assms nh it c p Filter show ?thesis by (simp add: body_def command_token_def)
      qed
    qed
  qed
qed

subsection \<open>The live value\<close>

lemma body_Next_input:
  assumes "filter_keeps U" and "args s \<noteq> []" and "body U s = Next s'" and "input s \<noteq> None"
  shows "input s' \<noteq> None"
proof -
  obtain a rest where ar: "args s = a # rest" using assms(2) by (cases "args s") auto
  from ar show ?thesis
  proof (cases rule: body_cases[where U = U])
    case (Filter it c out w')
    from assms(4) obtain v where "input s = Some v" by auto
    with Filter(4) assms(1) have "out \<noteq> None" unfolding filter_keeps_def by metis
    with Filter assms(3) show ?thesis by auto
  qed (use assms in auto)
qed

text \<open>
  Claim C7, as amended. When every \<^verbatim>\<open>Filter\<close> that returns no error for a printable
  returns a printable, then from a loop head \<open>st\<close> of a run with a live value every
  later loop head of the run has a live value.
\<close>

theorem loaded_absorbing:
  assumes "filter_keeps U" and "st \<in> heads U w as" and "input st \<noteq> None"
    and "st' \<in> reach U st"
  shows "input st' \<noteq> None \<and> st' \<in> heads U w as"
proof
  show "input st' \<noteq> None"
    using assms(4,3)
  proof (induction rule: reach.induct)
    case start
    then show ?case by simp
  next
    case (iterate s s')
    then have "input s \<noteq> None" by simp
    with iterate(2,3) show ?case by (rule body_Next_input[OF assms(1)])
  qed
  show "st' \<in> heads U w as"
    using assms(2,4) unfolding heads_def by (blast intro: reach_trans)
qed

lemma filter_keeps_demo: "filter_keeps demo"
  by (simp add: filter_keeps_def demo_def)

theorem loaded_absorbing_witness:
  "input (loaded_demo [''info'', ''job.ctb'']) = Some (CachedJob (Some (Job ''x'')) 64) \<and>
   filtered_demo ''info'' (Some (CachedJob (Some (Job ''x'')) 64)) [''job.ctb'']
     \<in> reach demo (loaded_demo [''info'', ''job.ctb'']) \<and>
   input (filtered_demo ''info'' (Some (CachedJob (Some (Job ''x'')) 64)) [''job.ctb'']) \<noteq> None \<and>
   filtered_demo ''info'' (Some (CachedJob (Some (Job ''x'')) 64)) [''job.ctb'']
     \<in> heads demo [(''job.sl1'', Job ''x'')] [''job.sl1'', ''info'', ''job.ctb'']"
proof -
  have r: "filtered_demo ''info'' (Some (CachedJob (Some (Job ''x'')) 64)) [''job.ctb'']
     \<in> reach demo (loaded_demo [''info'', ''job.ctb''])"
    by (rule reach.iterate[OF reach.start])
      (simp_all add: filtered_demo_def loaded_demo_def body_def command_token_def
        commandMap_def demo_def bad_option_def)
  have i: "input (loaded_demo [''info'', ''job.ctb'']) \<noteq> None"
    by (simp add: loaded_demo_def)
  have h: "loaded_demo [''info'', ''job.ctb'']
     \<in> heads demo [(''job.sl1'', Job ''x'')] [''job.sl1'', ''info'', ''job.ctb'']"
    using loaded_demo_head[of "[''info'', ''job.ctb'']"] by (simp add: bad_option_def)
  show ?thesis
    using loaded_absorbing[OF filter_keeps_demo h i r] r
    by (simp add: loaded_demo_def)
qed

text \<open>
  The claim as it is written fails for a \<^verbatim>\<open>Filter\<close> that returns \<^verbatim>\<open>(nil, nil)\<close>: the
  assignment \<^verbatim>\<open>input, err = cmd.Filter(input)\<close> makes \<^verbatim>\<open>input\<close> \<^verbatim>\<open>nil\<close> again, and
  the step has not failed.
\<close>

theorem loaded_absorbing_counterexample:
  "loaded_demo [''info'', ''job.ctb'']
     \<in> heads demo_nil [(''job.sl1'', Job ''x'')] [''job.sl1'', ''info'', ''job.ctb''] \<and>
   input (loaded_demo [''info'', ''job.ctb'']) = Some (CachedJob (Some (Job ''x'')) 64) \<and>
   filtered_demo ''info'' None [''job.ctb''] \<in> reach demo_nil (loaded_demo [''info'', ''job.ctb'']) \<and>
   input (filtered_demo ''info'' None [''job.ctb'']) = None \<and>
   err (filtered_demo ''info'' None [''job.ctb'']) = None"
proof -
  have h: "loaded_demo [''info'', ''job.ctb'']
     \<in> heads demo_nil [(''job.sl1'', Job ''x'')] [''job.sl1'', ''info'', ''job.ctb'']"
    unfolding heads_def
    by (rule reach.iterate[OF reach.start]) (simp_all add: run_simps loaded_demo_def)
  have r: "filtered_demo ''info'' None [''job.ctb''] \<in> reach demo_nil (loaded_demo [''info'', ''job.ctb''])"
    by (rule reach.iterate[OF reach.start])
      (simp_all add: filtered_demo_def loaded_demo_def body_def command_token_def
        commandMap_def demo_def demo_nil_def bad_option_def)
  show ?thesis using h r by (simp add: filtered_demo_def loaded_demo_def)
qed

subsection \<open>The cache decorator\<close>

lemma stages_append: "stages (xs @ ys) = stages xs @ stages ys"
  by (simp add: stages_def map_filter_def)

lemma stages_simps:
  "stages [] = []"
  "stages (c # tr) = (case stage_of c of None \<Rightarrow> stages tr | Some g \<Rightarrow> g # stages tr)"
  by (simp_all add: stages_def map_filter_simps split: option.splits)

lemma once_Next:
  assumes "filter_keeps U" and "once s" and "args s \<noteq> []" and "body U s = Next s'"
  shows "once s'"
proof -
  obtain a rest where ar: "args s = a # rest" using assms(3) by (cases "args s") auto
  have keep: "input s \<noteq> None \<Longrightarrow> input s' \<noteq> None"
    using body_Next_input[OF assms(1,3,4)] .
  from ar show ?thesis
  proof (cases rule: body_cases[where U = U])
    case (Decode f0 f p w')
    with assms(2,4) show ?thesis
      by (auto simp: once_def caches_def decodes_def stages_append stages_simps)
  next
    case (Encode f0 f v w')
    with assms(2,4) show ?thesis
      by (auto simp: once_def caches_def decodes_def stages_append stages_simps)
  next
    case (Filter it c out w')
    with assms(2,4) keep show ?thesis
      by (auto simp: once_def caches_def decodes_def stages_append stages_simps)
  qed (use assms(4) in auto)
qed

lemma once_Return:
  assumes "once s" and "args s \<noteq> []" and "body U s = Return s'"
  shows "caches s' \<le> 1 \<and> decodes s' \<le> 1"
proof -
  obtain a rest where ar: "args s = a # rest" using assms(2) by (cases "args s") auto
  from ar show ?thesis
    by (cases rule: body_cases[where U = U])
      (use assms(1,3) in \<open>auto simp: once_def caches_def decodes_def stages_append stages_simps\<close>)
qed

lemma once_evaluate:
  assumes "filter_keeps U" and "evaluate U w as = Some fin"
  shows "caches fin \<le> 1 \<and> decodes fin \<le> 1"
proof (cases "as = []")
  case True
  with assms(2) show ?thesis
    by (auto simp: evaluate_def init_def caches_def decodes_def stages_simps)
next
  case False
  with assms(2) have run: "loop U (init w as) = Some fin" by (simp add: evaluate_def)
  have base: "once (init w as)"
    by (simp add: once_def caches_def decodes_def init_def stages_simps)
  show ?thesis
  proof (rule loop_rule[OF run, where I = once])
    show "once (init w as)" by (rule base)
  next
    fix s s' assume "once s" "args s \<noteq> []" "body U s = Next s'"
    then show "once s'" by (rule once_Next[OF assms(1)])
  next
    fix s :: "('a, 'b, 'c, 'd, 'e) state" assume "once s" "args s = []"
    then show "caches s \<le> 1 \<and> decodes s \<le> 1" by (auto simp: once_def)
  next
    fix s s' assume "once s" "args s \<noteq> []" "body U s = Return s'"
    then show "caches s' \<le> 1 \<and> decodes s' \<le> 1" by (rule once_Return)
  qed
qed

text \<open>
  Claim C6, as amended. (1) An iteration that decodes with success calls
  \<^verbatim>\<open>NewCachedPrintable\<close> on the decoded printable with capacity 64 right after the
  decode, and binds the result as the live value. (2) An iteration constructs a cache
  only so: when its calls contain a \<^verbatim>\<open>NewCachedPrintable\<close>, there was no live value,
  the call is the last of the iteration, right after the decode, with capacity 64, and
  its result is the live value. (3) An iteration that starts with the live value \<open>v\<close>
  decodes nothing and constructs no cache, hands \<open>v\<close> to its encode or filter, and
  leaves \<open>v\<close> or what the filter has returned for \<open>v\<close> as the live value. (4) When
  every \<^verbatim>\<open>Filter\<close> that returns no error for a printable returns a printable, a run
  constructs at most one cache and decodes at most once.
\<close>

theorem cache_wrapping:
  "(args st = a # rest \<and> a \<noteq> ''help'' \<and> commandMap U a = None \<and> NewFormat U a rest = Inr f0 \<and>
    FormatParse U f0 rest = Inr f \<and> input st = None \<and> Printable U f (world st) = (Inr p, w1) \<longrightarrow>
      defaultCachedLayers = 64 \<and>
      body U st =
        Next (st\<lparr>input := Some (NewCachedPrintable U p defaultCachedLayers), err := None,
          args := FormatArgs U f, world := w1,
          trace := trace st @ [CallNewFormat a rest, CallFormatParse f0 rest, CallPrintable f,
            CallNewCachedPrintable p defaultCachedLayers]\<rparr>)) \<and>
   (args s \<noteq> [] \<and> (body U s = Next s' \<or> body U s = Return s') \<and> trace s' = trace s @ calls \<and>
    CallNewCachedPrintable q n \<in> set calls \<longrightarrow>
      input s = None \<and> n = defaultCachedLayers \<and>
      (\<exists>pre g. calls = pre @ [CallPrintable g, CallNewCachedPrintable q n]) \<and>
      body U s = Next s' \<and> input s' = Some (NewCachedPrintable U q n)) \<and>
   (input s = Some v \<and> args s \<noteq> [] \<and> (body U s = Next s' \<or> body U s = Return s') \<and>
    trace s' = trace s @ calls \<longrightarrow>
      list_all (receives (Some v)) calls \<and>
      (input s' = Some v \<or> (\<exists>c w2 w3. Filter U c (Some v) w2 = (Inr (input s'), w3)))) \<and>
   (filter_keeps U \<and> evaluate U w as = Some fin \<longrightarrow>
      length (filter is_cache (trace fin)) \<le> 1 \<and>
      length (filter is_decode (stages (trace fin))) \<le> 1)"
proof (intro conjI impI)
  assume "args st = a # rest \<and> a \<noteq> ''help'' \<and> commandMap U a = None \<and> NewFormat U a rest = Inr f0 \<and>
    FormatParse U f0 rest = Inr f \<and> input st = None \<and> Printable U f (world st) = (Inr p, w1)"
  then show "body U st =
        Next (st\<lparr>input := Some (NewCachedPrintable U p defaultCachedLayers), err := None,
          args := FormatArgs U f, world := w1,
          trace := trace st @ [CallNewFormat a rest, CallFormatParse f0 rest, CallPrintable f,
            CallNewCachedPrintable p defaultCachedLayers]\<rparr>)"
    by (simp add: body_def format_token_def)
next
  show "defaultCachedLayers = 64" by (simp add: defaultCachedLayers_def)
next
  assume h: "args s \<noteq> [] \<and> (body U s = Next s' \<or> body U s = Return s') \<and> trace s' = trace s @ calls \<and>
    CallNewCachedPrintable q n \<in> set calls"
  then obtain a' rest' where ar: "args s = a' # rest'" by (cases "args s") auto
  from ar have "input s = None \<and> n = defaultCachedLayers \<and>
      (\<exists>pre g. calls = pre @ [CallPrintable g, CallNewCachedPrintable q n]) \<and>
      body U s = Next s' \<and> input s' = Some (NewCachedPrintable U q n)"
    by (cases rule: body_cases[where U = U]) (use h in auto)
  then show "input s = None" "n = defaultCachedLayers"
    "\<exists>pre g. calls = pre @ [CallPrintable g, CallNewCachedPrintable q n]"
    "body U s = Next s'" "input s' = Some (NewCachedPrintable U q n)"
    by blast+
next
  assume h: "input s = Some v \<and> args s \<noteq> [] \<and> (body U s = Next s' \<or> body U s = Return s') \<and>
    trace s' = trace s @ calls"
  then obtain a' rest' where ar: "args s = a' # rest'" by (cases "args s") auto
  from ar have "list_all (receives (Some v)) calls \<and>
      (input s' = Some v \<or> (\<exists>c w2 w3. Filter U c (Some v) w2 = (Inr (input s'), w3)))"
    by (cases rule: body_cases[where U = U]) (use h in auto)
  then show "list_all (receives (Some v)) calls"
    "input s' = Some v \<or> (\<exists>c w2 w3. Filter U c (Some v) w2 = (Inr (input s'), w3))"
    by blast+
next
  assume "filter_keeps U \<and> evaluate U w as = Some fin"
  then have "caches fin \<le> 1 \<and> decodes fin \<le> 1" using once_evaluate[of U w as fin] by simp
  then show "length (filter is_cache (trace fin)) \<le> 1"
    "length (filter is_decode (stages (trace fin))) \<le> 1"
    by (simp_all add: caches_def decodes_def)
qed

theorem cache_wrapping_witness:
  "body demo (init [(''job.sl1'', Job ''x'')] [''job.sl1'', ''info'', ''job.ctb'']) =
     Next (loaded_demo [''info'', ''job.ctb'']) \<and>
   input (loaded_demo [''info'', ''job.ctb'']) = Some (CachedJob (Some (Job ''x'')) 64) \<and>
   body demo (loaded_demo [''info'', ''job.ctb'']) =
     Next (filtered_demo ''info'' (Some (CachedJob (Some (Job ''x'')) 64)) [''job.ctb'']) \<and>
   list_all (receives (Some (CachedJob (Some (Job ''x'')) 64)))
     [CallNewCommander ''info'', CallParse (''info'', []) [''job.ctb''],
      CallFilter (''info'', [''job.ctb'']) (Some (CachedJob (Some (Job ''x'')) 64))] \<and>
   (\<exists>fin. evaluate demo [(''job.sl1'', Job ''x'')] [''job.sl1'', ''info'', ''job.ctb''] = Some fin \<and>
      length (filter is_cache (trace fin)) \<le> 1 \<and>
      length (filter is_decode (stages (trace fin))) \<le> 1)"
proof -
  let ?w = "[(''job.sl1'', Job ''x'')]"
  let ?as = "[''job.sl1'', ''info'', ''job.ctb'']"
  let ?cj = "CachedJob (Some (Job ''x'')) 64"
  let ?calls = "[CallNewCommander ''info'', CallParse (''info'', []) [''job.ctb''],
      CallFilter (''info'', [''job.ctb'']) (Some ?cj)]"
  have b1: "body demo (init ?w ?as) = Next (loaded_demo [''info'', ''job.ctb''])"
    using cache_wrapping[where U = demo and st = "init ?w ?as" and a = "''job.sl1''"
        and rest = "[''info'', ''job.ctb'']" and ?f0.0 = "(''job.sl1'', [])"
        and f = "(''job.sl1'', [''info'', ''job.ctb''])" and p = "Some (Job ''x'')" and ?w1.0 = ?w]
    by (simp add: init_def loaded_demo_def commandMap_def demo_def has_extension_def
        bad_option_def defaultCachedLayers_def)
  have b2: "body demo (loaded_demo [''info'', ''job.ctb'']) = Next (filtered_demo ''info'' (Some ?cj) [''job.ctb''])"
    by (simp add: filtered_demo_def loaded_demo_def body_def command_token_def commandMap_def
        demo_def bad_option_def)
  have i2: "input (loaded_demo [''info'', ''job.ctb'']) = Some ?cj"
    using cache_wrapping[where U = demo and s = "init ?w ?as" and s' = "loaded_demo [''info'', ''job.ctb'']"
        and calls = "trace (loaded_demo [''info'', ''job.ctb''])" and q = "Some (Job ''x'')" and n = 64] b1
    by (simp add: init_def loaded_demo_def demo_def)
  have r: "list_all (receives (Some ?cj)) ?calls"
    using cache_wrapping[where U = demo and s = "loaded_demo [''info'', ''job.ctb'']"
        and s' = "filtered_demo ''info'' (Some ?cj) [''job.ctb'']" and v = ?cj and calls = ?calls] b2
    by (simp add: filtered_demo_def loaded_demo_def)
  obtain fin where e: "evaluate demo ?w ?as = Some fin" by (simp add: run_simps)
  have c: "length (filter is_cache (trace fin)) \<le> 1 \<and> length (filter is_decode (stages (trace fin))) \<le> 1"
    using cache_wrapping[where U = demo and w = ?w and as = ?as and fin = fin] e filter_keeps_demo
    by simp
  show ?thesis using b1 b2 i2 r e c by blast
qed

text \<open>
  The claim as it is written fails for a \<^verbatim>\<open>Filter\<close> that returns \<^verbatim>\<open>(nil, nil)\<close>: the
  next format token is decoded again, and a second cache is constructed.
\<close>

theorem cache_wrapping_counterexample:
  "\<exists>fin. evaluate demo_nil [(''job.sl1'', Job ''x'')] [''job.sl1'', ''info'', ''job.sl1''] = Some fin \<and>
     err fin = None \<and>
     filter is_cache (trace fin) =
       [CallNewCachedPrintable (Some (Job ''x'')) 64, CallNewCachedPrintable (Some (Job ''x'')) 64] \<and>
     stages (trace fin) =
       [DecodeStage (''job.sl1'', [''info'', ''job.sl1'']), FilterStage (''info'', [''job.sl1'']),
        DecodeStage (''job.sl1'', [])]"
  by (simp add: run_simps stages_simps)

subsection \<open>Linearity of the pipeline\<close>

lemma spec_linear_counts:
  "length (filter is_decode (spec_linear l segs)) =
     (if l then 0 else min 1 (length (filter is_format segs))) \<and>
   length (filter is_encode (spec_linear l segs)) =
     (if l then length (filter is_format segs) else length (filter is_format segs) - 1) \<and>
   length (filter is_filter (spec_linear l segs)) = length (filter (\<lambda>g. \<not> is_format g) segs)"
proof (induction segs arbitrary: l)
  case Nil
  then show ?case by simp
next
  case (Cons g segs)
  show ?case
  proof (cases g)
    case (FormatSeg f)
    with Cons[of True] show ?thesis by simp
  next
    case (CommandSeg c)
    with Cons[of l] show ?thesis by simp
  qed
qed

text \<open>
  Along the cut of the argument list the loop returns, and the decodes, encodes and
  filters it adds to the log are the spec's sequence, cut at the call that fails.
\<close>

lemma tokens_run:
  assumes "tokens U as segs" and fk: "filter_keeps U" and fs: "filter_strict U"
  shows "args s = as \<Longrightarrow>
    \<exists>fin ds. loop U s = Some fin \<and> stages (trace fin) = stages (trace s) @ ds \<and>
      prefix ds (spec_linear (input s \<noteq> None) segs) \<and>
      (err fin = None \<longrightarrow> ds = spec_linear (input s \<noteq> None) segs)"
  using assms(1)
proof (induction arbitrary: s rule: tokens.induct)
  case tokens_Nil
  then have "loop U s = Some s" by (simp add: loop_Nil)
  then show ?case by simp
next
  case (tokens_Format a rest f0 f segs)
  have ar: "args s = a # rest" using tokens_Format.prems by simp
  have ne: "args s \<noteq> []" using ar by simp
  show ?case
  proof (cases "input s")
    case None
    obtain r w' where p: "Printable U f (world s) = (r, w')" by (cases "Printable U f (world s)")
    show ?thesis
    proof (cases r)
      case (Inl e)
      obtain s1 where b: "body U s = Return s1" and e1: "err s1 = Some e"
        and t1: "trace s1 = trace s @ [CallNewFormat a rest, CallFormatParse f0 rest, CallPrintable f]"
        using ar tokens_Format.hyps None p Inl by (simp add: body_def format_token_def)
      have "loop U s = Some s1" using ne b by (rule loop_Return)
      moreover have "stages (trace s1) = stages (trace s) @ [DecodeStage f]"
        using t1 by (simp add: stages_append stages_simps)
      ultimately show ?thesis using e1 None by auto
    next
      case (Inr v)
      obtain s1 where b: "body U s = Next s1" and a1: "args s1 = FormatArgs U f"
        and i1: "input s1 \<noteq> None"
        and t1: "trace s1 = trace s @ [CallNewFormat a rest, CallFormatParse f0 rest, CallPrintable f,
          CallNewCachedPrintable v defaultCachedLayers]"
        using ar tokens_Format.hyps None p Inr by (simp add: body_def format_token_def)
      from tokens_Format.IH[OF a1] i1 obtain fin ds where
        l: "loop U s1 = Some fin" and st: "stages (trace fin) = stages (trace s1) @ ds"
        and pr: "prefix ds (spec_linear True segs)"
        and eq: "err fin = None \<longrightarrow> ds = spec_linear True segs"
        by auto
      have "loop U s = Some fin" using loop_Next[OF ne b] l by simp
      moreover have "stages (trace fin) = stages (trace s) @ (DecodeStage f # ds)"
        using st t1 by (simp add: stages_append stages_simps)
      ultimately show ?thesis using pr eq None by auto
    qed
  next
    case (Some v)
    obtain r w' where p: "SetPrintable U f v (world s) = (r, w')"
      by (cases "SetPrintable U f v (world s)")
    show ?thesis
    proof (cases r)
      case e: (Some e)
      obtain s1 where b: "body U s = Return s1" and e1: "err s1 = Some e"
        and t1: "trace s1 = trace s @ [CallNewFormat a rest, CallFormatParse f0 rest, CallSetPrintable f v]"
        using ar tokens_Format.hyps Some p e by (simp add: body_def format_token_def)
      have "loop U s = Some s1" using ne b by (rule loop_Return)
      moreover have "stages (trace s1) = stages (trace s) @ [EncodeStage f]"
        using t1 by (simp add: stages_append stages_simps)
      ultimately show ?thesis using e1 Some by auto
    next
      case n: None
      obtain s1 where b: "body U s = Next s1" and a1: "args s1 = FormatArgs U f"
        and i1: "input s1 \<noteq> None"
        and t1: "trace s1 = trace s @ [CallNewFormat a rest, CallFormatParse f0 rest, CallSetPrintable f v]"
        using ar tokens_Format.hyps Some p n by (simp add: body_def format_token_def)
      from tokens_Format.IH[OF a1] i1 obtain fin ds where
        l: "loop U s1 = Some fin" and st: "stages (trace fin) = stages (trace s1) @ ds"
        and pr: "prefix ds (spec_linear True segs)"
        and eq: "err fin = None \<longrightarrow> ds = spec_linear True segs"
        by auto
      have "loop U s = Some fin" using loop_Next[OF ne b] l by simp
      moreover have "stages (trace fin) = stages (trace s) @ (EncodeStage f # ds)"
        using st t1 by (simp add: stages_append stages_simps)
      ultimately show ?thesis using pr eq Some by auto
    qed
  qed
next
  case (tokens_Command a it rest c segs)
  have ar: "args s = a # rest" using tokens_Command.prems by simp
  have ne: "args s \<noteq> []" using ar by simp
  have nh: "a \<noteq> ''help''" using tokens_Command.hyps(1) commandMap_help[of U] by auto
  obtain r w' where p: "Filter U c (input s) (world s) = (r, w')"
    by (cases "Filter U c (input s) (world s)")
  show ?case
  proof (cases r)
    case (Inl e)
    obtain s1 where b: "body U s = Return s1" and e1: "err s1 = Some e"
      and t1: "trace s1 = trace s @ [CallNewCommander a, CallParse (NewCommander it) rest,
        CallFilter c (input s)]"
      using ar nh tokens_Command.hyps p Inl by (simp add: body_def command_token_def)
    have "loop U s = Some s1" using ne b by (rule loop_Return)
    moreover have "stages (trace s1) = stages (trace s) @ [FilterStage c]"
      using t1 by (simp add: stages_append stages_simps)
    ultimately show ?thesis using e1 by auto
  next
    case (Inr out)
    obtain s1 where b: "body U s = Next s1" and a1: "args s1 = Args U c"
      and i1: "input s1 = out"
      and t1: "trace s1 = trace s @ [CallNewCommander a, CallParse (NewCommander it) rest,
        CallFilter c (input s)]"
      using ar nh tokens_Command.hyps p Inr by (simp add: body_def command_token_def)
    have same: "(out \<noteq> None) = (input s \<noteq> None)"
    proof (cases "input s")
      case None
      with p Inr have "Filter U c None (world s) = (Inr out, w')" by simp
      with fs have "out = None" unfolding filter_strict_def by blast
      with None show ?thesis by simp
    next
      case (Some v)
      with p Inr have "Filter U c (Some v) (world s) = (Inr out, w')" by simp
      with fk have "out \<noteq> None" unfolding filter_keeps_def by blast
      with Some show ?thesis by simp
    qed
    from tokens_Command.IH[OF a1] i1 same obtain fin ds where
      l: "loop U s1 = Some fin" and st: "stages (trace fin) = stages (trace s1) @ ds"
      and pr: "prefix ds (spec_linear (input s \<noteq> None) segs)"
      and eq: "err fin = None \<longrightarrow> ds = spec_linear (input s \<noteq> None) segs"
      by auto
    have "loop U s = Some fin" using loop_Next[OF ne b] l by simp
    moreover have "stages (trace fin) = stages (trace s) @ (FilterStage c # ds)"
      using st t1 by (simp add: stages_append stages_simps)
    ultimately show ?thesis using pr eq by auto
  qed
qed

text \<open>
  Along the cut of the argument list the loop is the spec's run of the pipeline: the
  same stages, ending at the first that fails, the same error and the same world.
\<close>

lemma tokens_pipeline:
  assumes "tokens U as segs" and fk: "filter_keeps U" and fs: "filter_strict U"
  shows "args s = as \<Longrightarrow> err s = None \<Longrightarrow>
    \<exists>fin ss. loop U s = Some fin \<and>
      spec_pipeline U (input s \<noteq> None) segs (input s) (world s) = Some (ss, err fin, world fin) \<and>
      stages (trace fin) = stages (trace s) @ ss"
  using assms(1)
proof (induction arbitrary: s rule: tokens.induct)
  case tokens_Nil
  then have "loop U s = Some s" by (simp add: loop_Nil)
  with tokens_Nil show ?case by simp
next
  case (tokens_Format a rest f0 f segs)
  have ar: "args s = a # rest" using tokens_Format.prems by simp
  have ne: "args s \<noteq> []" using ar by simp
  show ?case
  proof (cases "input s")
    case None
    obtain r w' where p: "Printable U f (world s) = (r, w')" by (cases "Printable U f (world s)")
    show ?thesis
    proof (cases r)
      case (Inl e)
      define s1 where "s1 = s\<lparr>err := Some e, args := FormatArgs U f, world := w',
        trace := trace s @ [CallNewFormat a rest, CallFormatParse f0 rest, CallPrintable f]\<rparr>"
        have b: "body U s = Return s1"
          using ar tokens_Format.hyps None p Inl by (simp add: s1_def body_def format_token_def)
        have e1: "err s1 = Some e"
          and w1: "world s1 = w'"
          and t1: "trace s1 = trace s @ [CallNewFormat a rest, CallFormatParse f0 rest, CallPrintable f]"
          by (simp_all add: s1_def)
      have "loop U s = Some s1" using ne b by (rule loop_Return)
      moreover have "stages (trace s1) = stages (trace s) @ [DecodeStage f]"
        using t1 by (simp add: stages_append stages_simps)
      ultimately show ?thesis using e1 w1 None p Inl by simp
    next
      case (Inr v)
      define s1 where "s1 = s\<lparr>input := Some (NewCachedPrintable U v defaultCachedLayers), err := None, args := FormatArgs U f, world := w', trace := trace s @ [CallNewFormat a rest, CallFormatParse f0 rest, CallPrintable f,
          CallNewCachedPrintable v defaultCachedLayers]\<rparr>"
        have b: "body U s = Next s1"
          using ar tokens_Format.hyps None p Inr by (simp add: s1_def body_def format_token_def)
        have a1: "args s1 = FormatArgs U f"
          and i1: "input s1 = Some (NewCachedPrintable U v defaultCachedLayers)"
          and e1: "err s1 = None"
          and w1: "world s1 = w'"
          and t1: "trace s1 = trace s @ [CallNewFormat a rest, CallFormatParse f0 rest, CallPrintable f,
          CallNewCachedPrintable v defaultCachedLayers]"
          by (simp_all add: s1_def)
      from tokens_Format.IH[OF a1 e1] i1 w1 obtain fin ss where
        l: "loop U s1 = Some fin"
        and sp: "spec_pipeline U True segs (Some (NewCachedPrintable U v defaultCachedLayers)) w' =
                   Some (ss, err fin, world fin)"
        and st: "stages (trace fin) = stages (trace s1) @ ss"
        by auto
      have "loop U s = Some fin" using loop_Next[OF ne b] l by simp
      moreover have "stages (trace fin) = stages (trace s) @ (DecodeStage f # ss)"
        using st t1 by (simp add: stages_append stages_simps)
      ultimately show ?thesis using sp None p Inr by simp
    qed
  next
    case (Some v)
    obtain r w' where p: "SetPrintable U f v (world s) = (r, w')"
      by (cases "SetPrintable U f v (world s)")
    show ?thesis
    proof (cases r)
      case e: (Some e)
      define s1 where "s1 = s\<lparr>err := Some e, args := FormatArgs U f, world := w',
        trace := trace s @ [CallNewFormat a rest, CallFormatParse f0 rest, CallSetPrintable f v]\<rparr>"
        have b: "body U s = Return s1"
          using ar tokens_Format.hyps Some p e by (simp add: s1_def body_def format_token_def)
        have e1: "err s1 = Some e"
          and w1: "world s1 = w'"
          and t1: "trace s1 = trace s @ [CallNewFormat a rest, CallFormatParse f0 rest, CallSetPrintable f v]"
          by (simp_all add: s1_def)
      have "loop U s = Some s1" using ne b by (rule loop_Return)
      moreover have "stages (trace s1) = stages (trace s) @ [EncodeStage f]"
        using t1 by (simp add: stages_append stages_simps)
      ultimately show ?thesis using e1 w1 Some p e by simp
    next
      case n: None
      define s1 where "s1 = s\<lparr>err := None, args := FormatArgs U f, world := w',
        trace := trace s @ [CallNewFormat a rest, CallFormatParse f0 rest, CallSetPrintable f v]\<rparr>"
        have b: "body U s = Next s1"
          using ar tokens_Format.hyps Some p n by (simp add: s1_def body_def format_token_def)
        have a1: "args s1 = FormatArgs U f"
          and i1: "input s1 = Some v"
          and e1: "err s1 = None"
          and w1: "world s1 = w'"
          and t1: "trace s1 = trace s @ [CallNewFormat a rest, CallFormatParse f0 rest, CallSetPrintable f v]"
          using Some by (simp_all add: s1_def)
      from tokens_Format.IH[OF a1 e1] i1 w1 obtain fin ss where
        l: "loop U s1 = Some fin"
        and sp: "spec_pipeline U True segs (Some v) w' = Some (ss, err fin, world fin)"
        and st: "stages (trace fin) = stages (trace s1) @ ss"
        by auto
      have "loop U s = Some fin" using loop_Next[OF ne b] l by simp
      moreover have "stages (trace fin) = stages (trace s) @ (EncodeStage f # ss)"
        using st t1 by (simp add: stages_append stages_simps)
      ultimately show ?thesis using sp Some p n by simp
    qed
  qed
next
  case (tokens_Command a it rest c segs)
  have ar: "args s = a # rest" using tokens_Command.prems by simp
  have ne: "args s \<noteq> []" using ar by simp
  have nh: "a \<noteq> ''help''" using tokens_Command.hyps(1) commandMap_help[of U] by auto
  obtain r w' where p: "Filter U c (input s) (world s) = (r, w')"
    by (cases "Filter U c (input s) (world s)")
  show ?case
  proof (cases r)
    case (Inl e)
    define s1 where "s1 = s\<lparr>err := Some e, args := Args U c, world := w',
        trace := trace s @ [CallNewCommander a, CallParse (NewCommander it) rest,
        CallFilter c (input s)]\<rparr>"
      have b: "body U s = Return s1"
        using ar nh tokens_Command.hyps p Inl by (simp add: s1_def body_def command_token_def)
      have e1: "err s1 = Some e"
        and w1: "world s1 = w'"
        and t1: "trace s1 = trace s @ [CallNewCommander a, CallParse (NewCommander it) rest,
        CallFilter c (input s)]"
        by (simp_all add: s1_def)
    have "loop U s = Some s1" using ne b by (rule loop_Return)
    moreover have "stages (trace s1) = stages (trace s) @ [FilterStage c]"
      using t1 by (simp add: stages_append stages_simps)
    ultimately show ?thesis using e1 w1 p Inl by simp
  next
    case (Inr out)
    define s1 where "s1 = s\<lparr>input := out, err := None, args := Args U c, world := w', trace := trace s @ [CallNewCommander a, CallParse (NewCommander it) rest,
        CallFilter c (input s)]\<rparr>"
      have b: "body U s = Next s1"
        using ar nh tokens_Command.hyps p Inr by (simp add: s1_def body_def command_token_def)
      have a1: "args s1 = Args U c"
        and i1: "input s1 = out"
        and e1: "err s1 = None"
        and w1: "world s1 = w'"
        and t1: "trace s1 = trace s @ [CallNewCommander a, CallParse (NewCommander it) rest,
        CallFilter c (input s)]"
        by (simp_all add: s1_def)
    have same: "(out \<noteq> None) = (input s \<noteq> None)"
    proof (cases "input s")
      case None
      with p Inr have "Filter U c None (world s) = (Inr out, w')" by simp
      with fs have "out = None" unfolding filter_strict_def by blast
      with None show ?thesis by simp
    next
      case (Some v)
      with p Inr have "Filter U c (Some v) (world s) = (Inr out, w')" by simp
      with fk have "out \<noteq> None" unfolding filter_keeps_def by blast
      with Some show ?thesis by simp
    qed
    from tokens_Command.IH[OF a1 e1] i1 w1 same obtain fin ss where
      l: "loop U s1 = Some fin"
      and sp: "spec_pipeline U (input s \<noteq> None) segs out w' = Some (ss, err fin, world fin)"
      and st: "stages (trace fin) = stages (trace s1) @ ss"
      by auto
    have "loop U s = Some fin" using loop_Next[OF ne b] l by simp
    moreover have "stages (trace fin) = stages (trace s) @ (FilterStage c # ss)"
      using st t1 by (simp add: stages_append stages_simps)
    ultimately show ?thesis using sp p Inr by simp
  qed
qed

text \<open>
  Claim C1, as amended. Let the argument list cut into segments \<open>segs\<close>, each token
  resolving and parsing and none being \<^verbatim>\<open>help\<close>, and let every \<^verbatim>\<open>Filter\<close> that returns no
  error return a printable exactly when it was given one. Then \<^verbatim>\<open>evaluate\<close> returns, and
  its decodes, encodes and filters, the error it returns and the world it leaves are
  those of the spec's run of the pipeline: a decode at the first format token, an
  encode at each later one, a filter at each command token, from left to right, ending
  at the first call that fails, whose error is returned. So the stages are a prefix of
  the spec's sequence, and when \<^verbatim>\<open>evaluate\<close> returns \<^verbatim>\<open>nil\<close> they are the whole sequence:
  one decode if there is a format token, N - 1 encodes for N format tokens, M filters
  for M command tokens.
\<close>

theorem pipeline_linearity:
  assumes "tokens U as segs" and "filter_keeps U" and "filter_strict U"
  shows "\<exists>fin. evaluate U w as = Some fin \<and>
    spec_pipeline U False segs None w = Some (stages (trace fin), err fin, world fin) \<and>
    prefix (stages (trace fin)) (spec_linear False segs) \<and>
    (err fin = None \<longrightarrow>
       stages (trace fin) = spec_linear False segs \<and>
       length (filter is_decode (stages (trace fin))) = min 1 (length (filter is_format segs)) \<and>
       length (filter is_encode (stages (trace fin))) = length (filter is_format segs) - 1 \<and>
       length (filter is_filter (stages (trace fin))) =
         length (filter (\<lambda>g. \<not> is_format g) segs))"
proof (cases "as = []")
  case True
  with assms(1) have "segs = []" by (auto elim: tokens.cases)
  with True show ?thesis by (simp add: evaluate_def init_def stages_simps)
next
  case False
  have a: "args (init w as) = as" and e: "err (init w as) = None" by (simp_all add: init_def)
  from tokens_run[OF assms a] obtain fin ds where
    l: "loop U (init w as) = Some fin" and st: "stages (trace fin) = ds"
    and pr: "prefix ds (spec_linear False segs)"
    and eq: "err fin = None \<longrightarrow> ds = spec_linear False segs"
    by (auto simp: init_def stages_simps)
  from tokens_pipeline[OF assms a e] l
  have sp: "spec_pipeline U False segs None w = Some (stages (trace fin), err fin, world fin)"
    by (auto simp: init_def stages_simps)
  have "evaluate U w as = Some fin" using False l by (simp add: evaluate_def)
  then show ?thesis using sp st pr eq spec_linear_counts[of False segs] by auto
qed

lemma filter_strict_demo: "filter_strict demo"
  by (simp add: filter_strict_def demo_def)

lemma demo_tokens:
  "tokens demo [''job.sl1'', ''decimate'', ''job.ctb'', ''exposure'', ''job2.ctb'']
     [FormatSeg (''job.sl1'', [''decimate'', ''job.ctb'', ''exposure'', ''job2.ctb'']),
      CommandSeg (''decimate'', [''job.ctb'', ''exposure'', ''job2.ctb'']),
      FormatSeg (''job.ctb'', [''exposure'', ''job2.ctb'']),
      CommandSeg (''exposure'', [''job2.ctb'']),
      FormatSeg (''job2.ctb'', [])]"
proof -
  have 5: "tokens demo [''job2.ctb''] [FormatSeg (''job2.ctb'', [])]"
    using tokens_Format[where U = demo and a = "''job2.ctb''" and rest = "[]"
        and ?f0.0 = "(''job2.ctb'', [])" and f = "(''job2.ctb'', [])" and segs = "[]"] tokens_Nil[of demo]
    by (simp add: commandMap_def demo_def has_extension_def bad_option_def)
  have 4: "tokens demo [''exposure'', ''job2.ctb'']
     [CommandSeg (''exposure'', [''job2.ctb'']), FormatSeg (''job2.ctb'', [])]"
    using tokens_Command[where U = demo and a = "''exposure''" and rest = "[''job2.ctb'']"
        and it = "\<lparr>NewCommander = (''exposure'', []), Description = ''Alters exposure times''\<rparr>"
        and c = "(''exposure'', [''job2.ctb''])" and segs = "[FormatSeg (''job2.ctb'', [])]"] 5
    by (simp add: commandMap_def demo_def bad_option_def)
  have 3: "tokens demo [''job.ctb'', ''exposure'', ''job2.ctb'']
     [FormatSeg (''job.ctb'', [''exposure'', ''job2.ctb'']),
      CommandSeg (''exposure'', [''job2.ctb'']), FormatSeg (''job2.ctb'', [])]"
    using tokens_Format[where U = demo and a = "''job.ctb''" and rest = "[''exposure'', ''job2.ctb'']"
        and ?f0.0 = "(''job.ctb'', [])" and f = "(''job.ctb'', [''exposure'', ''job2.ctb''])"
        and segs = "[CommandSeg (''exposure'', [''job2.ctb'']), FormatSeg (''job2.ctb'', [])]"] 4
    by (simp add: commandMap_def demo_def has_extension_def bad_option_def)
  have 2: "tokens demo [''decimate'', ''job.ctb'', ''exposure'', ''job2.ctb'']
     [CommandSeg (''decimate'', [''job.ctb'', ''exposure'', ''job2.ctb'']),
      FormatSeg (''job.ctb'', [''exposure'', ''job2.ctb'']),
      CommandSeg (''exposure'', [''job2.ctb'']), FormatSeg (''job2.ctb'', [])]"
    using tokens_Command[where U = demo and a = "''decimate''"
        and rest = "[''job.ctb'', ''exposure'', ''job2.ctb'']"
        and it = "\<lparr>NewCommander = (''decimate'', []), Description = ''Remove outmost pixels of all islands in each layer (reduces over-curing on edges)''\<rparr>"
        and c = "(''decimate'', [''job.ctb'', ''exposure'', ''job2.ctb''])"
        and segs = "[FormatSeg (''job.ctb'', [''exposure'', ''job2.ctb'']),
          CommandSeg (''exposure'', [''job2.ctb'']), FormatSeg (''job2.ctb'', [])]"] 3
    by (simp add: commandMap_def demo_def bad_option_def)
  show ?thesis
    using tokens_Format[where U = demo and a = "''job.sl1''"
        and rest = "[''decimate'', ''job.ctb'', ''exposure'', ''job2.ctb'']"
        and ?f0.0 = "(''job.sl1'', [])"
        and f = "(''job.sl1'', [''decimate'', ''job.ctb'', ''exposure'', ''job2.ctb''])"
        and segs = "[CommandSeg (''decimate'', [''job.ctb'', ''exposure'', ''job2.ctb'']),
          FormatSeg (''job.ctb'', [''exposure'', ''job2.ctb'']),
          CommandSeg (''exposure'', [''job2.ctb'']), FormatSeg (''job2.ctb'', [])]"] 2
    by (simp add: commandMap_def demo_def has_extension_def bad_option_def)
qed

lemma demo_tokens_readonly:
  "tokens demo [''job.sl1'', ''readonly.ctb'', ''job.ctb'']
     [FormatSeg (''job.sl1'', [''readonly.ctb'', ''job.ctb'']),
      FormatSeg (''readonly.ctb'', [''job.ctb'']),
      FormatSeg (''job.ctb'', [])]"
proof -
  have 3: "tokens demo [''job.ctb''] [FormatSeg (''job.ctb'', [])]"
    using tokens_Format[where U = demo and a = "''job.ctb''" and rest = "[]"
        and ?f0.0 = "(''job.ctb'', [])" and f = "(''job.ctb'', [])" and segs = "[]"] tokens_Nil[of demo]
    by (simp add: commandMap_def demo_def has_extension_def bad_option_def)
  have 2: "tokens demo [''readonly.ctb'', ''job.ctb'']
     [FormatSeg (''readonly.ctb'', [''job.ctb'']), FormatSeg (''job.ctb'', [])]"
    using tokens_Format[where U = demo and a = "''readonly.ctb''" and rest = "[''job.ctb'']"
        and ?f0.0 = "(''readonly.ctb'', [])" and f = "(''readonly.ctb'', [''job.ctb''])"
        and segs = "[FormatSeg (''job.ctb'', [])]"] 3
    by (simp add: commandMap_def demo_def has_extension_def bad_option_def)
  show ?thesis
    using tokens_Format[where U = demo and a = "''job.sl1''" and rest = "[''readonly.ctb'', ''job.ctb'']"
        and ?f0.0 = "(''job.sl1'', [])" and f = "(''job.sl1'', [''readonly.ctb'', ''job.ctb''])"
        and segs = "[FormatSeg (''readonly.ctb'', [''job.ctb'']), FormatSeg (''job.ctb'', [])]"] 2
    by (simp add: commandMap_def demo_def has_extension_def bad_option_def)
qed

text \<open>
  Scenario 6 of the specification, without the option of \<^verbatim>\<open>exposure\<close>; and a run whose
  first encode fails: it ends there, with the error of the encode, and the file of the
  next format token is not written.
\<close>

theorem pipeline_linearity_witness:
  "(\<exists>fin. evaluate demo [(''job.sl1'', Job ''x'')]
       [''job.sl1'', ''decimate'', ''job.ctb'', ''exposure'', ''job2.ctb''] = Some fin \<and>
     err fin = None \<and>
     spec_pipeline demo False
       [FormatSeg (''job.sl1'', [''decimate'', ''job.ctb'', ''exposure'', ''job2.ctb'']),
        CommandSeg (''decimate'', [''job.ctb'', ''exposure'', ''job2.ctb'']),
        FormatSeg (''job.ctb'', [''exposure'', ''job2.ctb'']),
        CommandSeg (''exposure'', [''job2.ctb'']),
        FormatSeg (''job2.ctb'', [])] None [(''job.sl1'', Job ''x'')] =
       Some (stages (trace fin), None, world fin) \<and>
     stages (trace fin) =
       [DecodeStage (''job.sl1'', [''decimate'', ''job.ctb'', ''exposure'', ''job2.ctb'']),
        FilterStage (''decimate'', [''job.ctb'', ''exposure'', ''job2.ctb'']),
        EncodeStage (''job.ctb'', [''exposure'', ''job2.ctb'']),
        FilterStage (''exposure'', [''job2.ctb'']),
        EncodeStage (''job2.ctb'', [])] \<and>
     length (filter is_decode (stages (trace fin))) = 1 \<and>
     length (filter is_encode (stages (trace fin))) = 2 \<and>
     length (filter is_filter (stages (trace fin))) = 2) \<and>
   (\<exists>fin. evaluate demo [(''job.sl1'', Job ''x'')] [''job.sl1'', ''readonly.ctb'', ''job.ctb''] = Some fin \<and>
     spec_pipeline demo False
       [FormatSeg (''job.sl1'', [''readonly.ctb'', ''job.ctb'']),
        FormatSeg (''readonly.ctb'', [''job.ctb'']),
        FormatSeg (''job.ctb'', [])] None [(''job.sl1'', Job ''x'')] =
       Some (stages (trace fin), err fin, world fin) \<and>
     stages (trace fin) =
       [DecodeStage (''job.sl1'', [''readonly.ctb'', ''job.ctb'']),
        EncodeStage (''readonly.ctb'', [''job.ctb''])] \<and>
     err fin = Some EncodeError \<and>
     world fin = [(''job.sl1'', Job ''x'')])"
proof -
  let ?w = "[(''job.sl1'', Job ''x'')]"
  let ?as = "[''job.sl1'', ''decimate'', ''job.ctb'', ''exposure'', ''job2.ctb'']"
  let ?bs = "[''job.sl1'', ''readonly.ctb'', ''job.ctb'']"
  obtain fin where e: "evaluate demo ?w ?as = Some fin" and n: "err fin = None"
    by (simp add: run_simps)
  from pipeline_linearity[OF demo_tokens filter_keeps_demo filter_strict_demo, of ?w] e n
  have a: "\<exists>fin. evaluate demo ?w ?as = Some fin \<and>
     err fin = None \<and>
     spec_pipeline demo False
       [FormatSeg (''job.sl1'', [''decimate'', ''job.ctb'', ''exposure'', ''job2.ctb'']),
        CommandSeg (''decimate'', [''job.ctb'', ''exposure'', ''job2.ctb'']),
        FormatSeg (''job.ctb'', [''exposure'', ''job2.ctb'']),
        CommandSeg (''exposure'', [''job2.ctb'']),
        FormatSeg (''job2.ctb'', [])] None ?w =
       Some (stages (trace fin), None, world fin) \<and>
     stages (trace fin) =
       [DecodeStage (''job.sl1'', [''decimate'', ''job.ctb'', ''exposure'', ''job2.ctb'']),
        FilterStage (''decimate'', [''job.ctb'', ''exposure'', ''job2.ctb'']),
        EncodeStage (''job.ctb'', [''exposure'', ''job2.ctb'']),
        FilterStage (''exposure'', [''job2.ctb'']),
        EncodeStage (''job2.ctb'', [])] \<and>
     length (filter is_decode (stages (trace fin))) = 1 \<and>
     length (filter is_encode (stages (trace fin))) = 2 \<and>
     length (filter is_filter (stages (trace fin))) = 2"
    by simp
  obtain fin' where e': "evaluate demo ?w ?bs = Some fin'"
    and sp: "spec_pipeline demo False
       [FormatSeg (''job.sl1'', [''readonly.ctb'', ''job.ctb'']),
        FormatSeg (''readonly.ctb'', [''job.ctb'']),
        FormatSeg (''job.ctb'', [])] None ?w = Some (stages (trace fin'), err fin', world fin')"
    using pipeline_linearity[OF demo_tokens_readonly filter_keeps_demo filter_strict_demo, of ?w]
    by blast
  have v: "spec_pipeline demo False
       [FormatSeg (''job.sl1'', [''readonly.ctb'', ''job.ctb'']),
        FormatSeg (''readonly.ctb'', [''job.ctb'']),
        FormatSeg (''job.ctb'', [])] None ?w =
     Some ([DecodeStage (''job.sl1'', [''readonly.ctb'', ''job.ctb'']),
            EncodeStage (''readonly.ctb'', [''job.ctb''])], Some EncodeError, ?w)"
    by (simp add: demo_def)
  from sp v have "stages (trace fin') = [DecodeStage (''job.sl1'', [''readonly.ctb'', ''job.ctb'']),
            EncodeStage (''readonly.ctb'', [''job.ctb''])]"
    and "err fin' = Some EncodeError" and "world fin' = ?w"
    by simp_all
  with e' sp have b: "\<exists>fin. evaluate demo ?w ?bs = Some fin \<and>
     spec_pipeline demo False
       [FormatSeg (''job.sl1'', [''readonly.ctb'', ''job.ctb'']),
        FormatSeg (''readonly.ctb'', [''job.ctb'']),
        FormatSeg (''job.ctb'', [])] None ?w =
       Some (stages (trace fin), err fin, world fin) \<and>
     stages (trace fin) =
       [DecodeStage (''job.sl1'', [''readonly.ctb'', ''job.ctb'']),
        EncodeStage (''readonly.ctb'', [''job.ctb''])] \<and>
     err fin = Some EncodeError \<and>
     world fin = ?w"
    by blast
  show ?thesis using a b by blast
qed

text \<open>
  The claim as it is written fails for a \<^verbatim>\<open>Filter\<close> that returns \<^verbatim>\<open>(nil, nil)\<close>: two format
  tokens and one command token, every step succeeds, and the run decodes twice and
  encodes nothing.
\<close>

theorem pipeline_linearity_counterexample:
  "tokens demo_nil [''job.sl1'', ''info'', ''job.ctb'']
     [FormatSeg (''job.sl1'', [''info'', ''job.ctb'']), CommandSeg (''info'', [''job.ctb'']),
      FormatSeg (''job.ctb'', [])] \<and>
   (\<exists>fin. evaluate demo_nil [(''job.sl1'', Job ''x''), (''job.ctb'', Job ''y'')]
        [''job.sl1'', ''info'', ''job.ctb''] = Some fin \<and>
      err fin = None \<and>
      stages (trace fin) =
        [DecodeStage (''job.sl1'', [''info'', ''job.ctb'']), FilterStage (''info'', [''job.ctb'']),
         DecodeStage (''job.ctb'', [])])"
proof -
  have 3: "tokens demo_nil [''job.ctb''] [FormatSeg (''job.ctb'', [])]"
    using tokens_Format[where U = demo_nil and a = "''job.ctb''" and rest = "[]"
        and ?f0.0 = "(''job.ctb'', [])" and f = "(''job.ctb'', [])" and segs = "[]"]
      tokens_Nil[of demo_nil]
    by (simp add: commandMap_def demo_def demo_nil_def has_extension_def bad_option_def)
  have 2: "tokens demo_nil [''info'', ''job.ctb'']
     [CommandSeg (''info'', [''job.ctb'']), FormatSeg (''job.ctb'', [])]"
    using tokens_Command[where U = demo_nil and a = "''info''" and rest = "[''job.ctb'']"
        and it = "\<lparr>NewCommander = (''info'', []), Description = ''Dumps information about the printable''\<rparr>"
        and c = "(''info'', [''job.ctb''])" and segs = "[FormatSeg (''job.ctb'', [])]"] 3
    by (simp add: commandMap_def demo_def demo_nil_def bad_option_def)
  have 1: "tokens demo_nil [''job.sl1'', ''info'', ''job.ctb'']
     [FormatSeg (''job.sl1'', [''info'', ''job.ctb'']), CommandSeg (''info'', [''job.ctb'']),
      FormatSeg (''job.ctb'', [])]"
    using tokens_Format[where U = demo_nil and a = "''job.sl1''" and rest = "[''info'', ''job.ctb'']"
        and ?f0.0 = "(''job.sl1'', [])" and f = "(''job.sl1'', [''info'', ''job.ctb''])"
        and segs = "[CommandSeg (''info'', [''job.ctb'']), FormatSeg (''job.ctb'', [])]"] 2
    by (simp add: commandMap_def demo_def demo_nil_def has_extension_def bad_option_def)
  have r: "\<exists>fin. evaluate demo_nil [(''job.sl1'', Job ''x''), (''job.ctb'', Job ''y'')]
        [''job.sl1'', ''info'', ''job.ctb''] = Some fin \<and>
      err fin = None \<and>
      stages (trace fin) =
        [DecodeStage (''job.sl1'', [''info'', ''job.ctb'']), FilterStage (''info'', [''job.ctb'']),
         DecodeStage (''job.ctb'', [])]"
    by (simp add: run_simps stages_simps)
  show ?thesis using 1 r by blast
qed

end
